theory Spec2Isabelle
  imports Complex_Main "HOL-Library.Product_Lexorder"
begin

section \<open>Numbers, samples and rounding\<close>

text \<open>
  JavaScript numbers are modelled as reals: finite doubles, with the rounding of
  each floating-point operation left out.  Where the source can leave the finite
  numbers (a division by zero in \<open>generateDEM\<close>), the value is a \<open>jsnum\<close>,
  which has the three non-finite doubles as constructors of their own.
\<close>

datatype jsnum = Fin real | PInf | NInf | NaN

text \<open>An elevation sample \<open>{lat, lng, elevation}\<close> and an analysed sample
  \<open>{...point, slope, aspect}\<close>.\<close>

record sample =
  lat :: real
  lng :: real
  elevation :: real

record topo = sample +
  slope :: real
  aspect :: real

text \<open>
  \<open>parseFloat(x.toFixed(1))\<close>: \<open>toFixed\<close> takes the integer \<open>n\<close> with \<open>n / 10\<close>
  closest to \<open>x\<close> (the larger one on a tie), after moving the sign of a negative
  \<open>x\<close> in front; from \<open>10^21\<close> on it prints the number itself.
\<close>

definition toFixed1 :: "real \<Rightarrow> real" where
  "toFixed1 x =
     (if 10 ^ 21 \<le> \<bar>x\<bar> then x
      else if x < 0 then - (real_of_int \<lfloor>(- x) * 10 + 1 / 2\<rfloor> / 10)
      else real_of_int \<lfloor>x * 10 + 1 / 2\<rfloor> / 10)"

section \<open>Contour extraction: \<open>DEMUtils.generateContours\<close>\<close>

record contour =
  level :: real
  points :: "sample list"

text \<open>
  \<open>Math.min(...xs)\<close> and \<open>Math.max(...xs)\<close> on a non-empty argument list.  On the
  empty list the source has \<open>Infinity\<close> and \<open>-Infinity\<close>, which are not reals: the
  callers below either treat that case apart or are stated for non-empty lists.
\<close>

fun math_min :: "real list \<Rightarrow> real" where
  "math_min [] = 0"
| "math_min (x # xs) = fold min xs x"

fun math_max :: "real list \<Rightarrow> real" where
  "math_max [] = 0"
| "math_max (x # xs) = fold max xs x"

definition contourPoints :: "sample list \<Rightarrow> real \<Rightarrow> sample list" where
  "contourPoints demData lv = filter (\<lambda>p. \<bar>elevation p - lv\<bar> < 1 / 2) demData"

text \<open>
  The loop \<open>for (level = ...; level <= maxElevation; level += interval)\<close>.  With
  \<open>interval \<le> 0\<close> the level never passes \<open>maxElevation\<close> once the body is entered:
  the loop does not return, which is the value \<open>None\<close>.
\<close>

function contour_loop :: "sample list \<Rightarrow> real \<Rightarrow> real \<Rightarrow> real \<Rightarrow> contour list option" where
  "contour_loop demData maxElevation interval lv =
     (if lv \<le> maxElevation then
        (if interval \<le> 0 then None
         else map_option
                (\<lambda>rest. if 10 < length (contourPoints demData lv)
                         then \<lparr>level = lv, points = contourPoints demData lv\<rparr> # rest
                         else rest)
                (contour_loop demData maxElevation interval (lv + interval)))
      else Some [])"
  by pat_completeness auto
termination
proof (relation "measure (\<lambda>(d, m, i, l). nat (\<lceil>(m - l) / i\<rceil> + 1))", goal_cases)
  case 1
  show ?case by simp
next
  case (2 demData maxElevation interval lv)
  then have pos: "0 < interval" and le: "lv \<le> maxElevation" by simp_all
  have eq: "(maxElevation - (lv + interval)) / interval = (maxElevation - lv) / interval - 1"
    using pos by (simp add: field_simps)
  have "0 \<le> (maxElevation - lv) / interval"
    using pos le by simp
  then have nonneg: "0 \<le> \<lceil>(maxElevation - lv) / interval\<rceil>"
    by (simp add: le_ceiling_iff)
  show ?case using nonneg by (simp add: eq)
qed

declare contour_loop.simps [simp del]

text \<open>
  With no sample, \<open>Math.min()\<close> is \<open>Infinity\<close> and \<open>Math.max()\<close> is \<open>-Infinity\<close>, so the
  loop body is never entered.
\<close>

definition generateContours :: "sample list \<Rightarrow> real \<Rightarrow> contour list option" where
  "generateContours demData interval =
     (if demData = [] then Some []
      else contour_loop demData (math_max (map elevation demData)) interval
             (real_of_int \<lceil>math_min (map elevation demData)\<rceil>))"

section \<open>Boundary geometry: \<open>pointInPolygon\<close> and \<open>BoundaryUtils\<close>\<close>

text \<open>
  A ring is the outer ring of a GeoJSON polygon: a list of \<open>[lng, lat]\<close> pairs.
  The functions of \<open>BoundaryUtils\<close> test \<open>boundary.geometry.coordinates\<close>, so what
  they are given is one of: \<open>null\<close>, a GeoJSON feature with its ring, or a bare array
  of coordinate pairs, which has no \<open>geometry\<close> property.
\<close>

type_synonym ring = "(real \<times> real) list"

datatype boundary = Null | Feature ring | CoordArray ring

definition EPSILON :: real where
  "EPSILON = 1 / 2 ^ 52"

text \<open>
  One edge test of the ray casting.  On a zero denominator the quotient is
  \<open>Infinity\<close>, \<open>-Infinity\<close> or \<open>NaN\<close> by the sign of the numerator, and \<open>x < \<dots>\<close> holds
  for \<open>Infinity\<close> only.
\<close>

definition intersect :: "real \<times> real \<Rightarrow> real \<times> real \<Rightarrow> real \<times> real \<Rightarrow> bool" where
  "intersect pt vi vj =
     (case pt of (x, y) \<Rightarrow> case vi of (xi, yi) \<Rightarrow> case vj of (xj, yj) \<Rightarrow>
        ((yi > y) \<noteq> (yj > y)) \<and>
        (if yj - yi + EPSILON = 0 then 0 < (xj - xi) * (y - yi)
         else x < ((xj - xi) * (y - yi)) / (yj - yi + EPSILON) + xi))"

text \<open>The loop \<open>for (i = 0, j = vs.length - 1; i < vs.length; j = i++)\<close>: \<open>vj\<close> is the
  vertex before \<open>vi\<close>, the last one at the start.\<close>

fun pip_loop :: "real \<times> real \<Rightarrow> real \<times> real \<Rightarrow> ring \<Rightarrow> bool \<Rightarrow> bool" where
  "pip_loop pt vj [] inside = inside"
| "pip_loop pt vj (vi # vs) inside =
     pip_loop pt vi vs (if intersect pt vi vj then \<not> inside else inside)"

definition pointInPolygon :: "real \<times> real \<Rightarrow> ring \<Rightarrow> bool" where
  "pointInPolygon pt vs = (if vs = [] then False else pip_loop pt (last vs) vs False)"

text \<open>
  \<open>isPointInBoundary(point, boundary)\<close> with an array \<open>point\<close>: the array is read as
  \<open>[lat, lng]\<close>, that is \<open>lng = point[1]\<close> and \<open>lat = point[0]\<close>.
\<close>

definition isPointInBoundary :: "real \<times> real \<Rightarrow> boundary \<Rightarrow> bool" where
  "isPointInBoundary point b =
     (case b of
        Feature coordinates \<Rightarrow> pointInPolygon (snd point, fst point) coordinates
      | _ \<Rightarrow> True)"

definition filterPointsInBoundary :: "('a sample_scheme) list \<Rightarrow> boundary \<Rightarrow> ('a sample_scheme) list" where
  "filterPointsInBoundary pts b =
     (case b of
        Feature coordinates \<Rightarrow> filter (\<lambda>point. pointInPolygon (lng point, lat point) coordinates) pts
      | _ \<Rightarrow> pts)"

text \<open>
  The bounding box \<open>(minLng, maxLng, minLat, maxLat)\<close> of a ring.  The source folds
  \<open>Math.min\<close> and \<open>Math.max\<close> over the ring from \<open>Infinity\<close> and \<open>-Infinity\<close>; the model
  is for a ring with at least one vertex, where the bounds are finite.
\<close>

definition bbox :: "ring \<Rightarrow> real \<times> real \<times> real \<times> real" where
  "bbox coordinates =
     (math_min (map fst coordinates), math_max (map fst coordinates),
      math_min (map snd coordinates), math_max (map snd coordinates))"

definition bbox_midpoint :: "ring \<Rightarrow> real \<times> real" where
  "bbox_midpoint coordinates =
     (case bbox coordinates of (minLng, maxLng, minLat, maxLat) \<Rightarrow>
        (minLat + (maxLat - minLat) / 2, minLng + (maxLng - minLng) / 2))"

text \<open>
  \<open>Math.random()\<close> is a stream \<open>rnd\<close> of numbers, read at the index \<open>k\<close> of the next
  call.  One attempt of the \<open>do \<dots> while\<close> loop draws the longitude, then the latitude.
\<close>

definition candidate :: "(nat \<Rightarrow> real) \<Rightarrow> ring \<Rightarrow> nat \<Rightarrow> real \<times> real" where
  "candidate rnd coordinates k =
     (case bbox coordinates of (minLng, maxLng, minLat, maxLat) \<Rightarrow>
        (minLat + rnd (k + 1) * (maxLat - minLat), minLng + rnd k * (maxLng - minLng)))"

text \<open>
  The result is the point \<open>[lat, lng]\<close>, whether \<open>console.warn\<close> was called, and the
  index of the next random number.  \<open>attempts\<close> is the counter before the increment.
\<close>

function random_point_loop ::
  "(nat \<Rightarrow> real) \<Rightarrow> ring \<Rightarrow> nat \<Rightarrow> nat \<Rightarrow> (real \<times> real) \<times> bool \<times> nat" where
  "random_point_loop rnd coordinates attempts k =
     (if attempts + 1 > 1000 then (bbox_midpoint coordinates, True, k + 2)
      else if \<not> pointInPolygon (snd (candidate rnd coordinates k), fst (candidate rnd coordinates k))
                  coordinates
      then random_point_loop rnd coordinates (attempts + 1) (k + 2)
      else (candidate rnd coordinates k, False, k + 2))"
  by pat_completeness auto
termination
  by (relation "measure (\<lambda>(rnd, coordinates, attempts, k). 1001 - attempts)") auto

declare random_point_loop.simps [simp del]

definition generateRandomPointInBoundary ::
  "(nat \<Rightarrow> real) \<Rightarrow> boundary \<Rightarrow> nat \<Rightarrow> (real \<times> real) \<times> bool \<times> nat" where
  "generateRandomPointInBoundary rnd b k =
     (case b of
        Feature coordinates \<Rightarrow> random_point_loop rnd coordinates 0 k
      | _ \<Rightarrow> ((1085 / 100, 7627 / 100), False, k))"

definition calculateDistanceBetweenPoints :: "real \<Rightarrow> real \<Rightarrow> real \<Rightarrow> real \<Rightarrow> real" where
  "calculateDistanceBetweenPoints x1 y1 x2 y2 =
     sqrt ((x2 - x1) * (x2 - x1) + (y2 - y1) * (y2 - y1))"

definition findClosestPointOnSegment ::
  "real \<Rightarrow> real \<Rightarrow> real \<Rightarrow> real \<Rightarrow> real \<Rightarrow> real \<Rightarrow> real \<times> real" where
  "findClosestPointOnSegment px py x1 y1 x2 y2 =
     (let A = px - x1; B = py - y1; C = x2 - x1; D = y2 - y1;
          dot = A * C + B * D;
          lenSq = C * C + D * D;
          param = (if lenSq \<noteq> 0 then dot / lenSq else - 1)
      in if param < 0 then (x1, y1)
         else if param > 1 then (x2, y2)
         else (x1 + param * C, y1 + param * D))"

text \<open>The segment loop of \<open>findClosestPointOnBoundary\<close>; \<open>minDistance\<close> is \<open>None\<close> while
  it is still \<open>Infinity\<close>.\<close>

fun closest_loop :: "real \<Rightarrow> real \<Rightarrow> ring \<Rightarrow> real option \<Rightarrow> real \<times> real \<Rightarrow> real \<times> real" where
  "closest_loop lng0 lat0 ((x1, y1) # (x2, y2) # rest) minDistance closestPoint =
     (let closest = findClosestPointOnSegment lng0 lat0 x1 y1 x2 y2;
          distance = calculateDistanceBetweenPoints lng0 lat0 (fst closest) (snd closest)
      in if (case minDistance of None \<Rightarrow> True | Some m \<Rightarrow> distance < m)
         then closest_loop lng0 lat0 ((x2, y2) # rest) (Some distance) (snd closest, fst closest)
         else closest_loop lng0 lat0 ((x2, y2) # rest) minDistance closestPoint)"
| "closest_loop lng0 lat0 coordinates minDistance closestPoint = closestPoint"

definition findClosestPointOnBoundary :: "real \<times> real \<Rightarrow> boundary \<Rightarrow> real \<times> real" where
  "findClosestPointOnBoundary point b =
     (case b of
        Feature coordinates \<Rightarrow>
          closest_loop (snd point) (fst point) coordinates None (fst point, snd point)
      | _ \<Rightarrow> point)"

text \<open>\<open>getBoundaryApproximateSize\<close>: \<open>(width, height)\<close> of the bounding box, neither
  of them zero.\<close>

definition getBoundaryApproximateSize :: "boundary \<Rightarrow> real \<times> real" where
  "getBoundaryApproximateSize b =
     (case b of
        Feature coords \<Rightarrow>
          if length coords < 3 then (1 / 100, 1 / 100)
          else (case bbox coords of (minLng, maxLng, minLat, maxLat) \<Rightarrow>
                  (if maxLng - minLng > 0 then maxLng - minLng else 1 / 10000,
                   if maxLat - minLat > 0 then maxLat - minLat else 1 / 10000))
      | _ \<Rightarrow> (1 / 100, 1 / 100))"

section \<open>Placed elements, direct placement and drag\<close>

text \<open>
  A placed element has exactly one of the properties \<open>position\<close>, \<open>polygon\<close> and
  \<open>points\<close>, each holding \<open>[lat, lng]\<close> pairs.  Its name is a literal, or the template
  \<open>Swale at ${contour.level}m\<close>.
\<close>

datatype geometry =
  Position "real \<times> real" | Polygon "(real \<times> real) list" | Points "(real \<times> real) list"

datatype label = Name string | SwaleAt real

record element =
  etype :: string
  geom :: geometry
  name :: label
  eid :: real

datatype geometry_kind = GPoint | GLine | GPolygon

text \<open>The catalog \<open>ELEMENT_TYPES\<close>, with the \<open>name\<close> and \<open>geometry\<close> of each kind.\<close>

definition ELEMENT_TYPES :: "string \<Rightarrow> (string \<times> geometry_kind) option" where
  "ELEMENT_TYPES = map_of
     [(''HOUSE'', (''House'', GPoint)),
      (''WATER_TANK'', (''Water Tank'', GPoint)),
      (''COMPOST'', (''Compost'', GPoint)),
      (''CHICKEN_COOP'', (''Chicken Coop'', GPoint)),
      (''BEEHIVE'', (''Beehive'', GPoint)),
      (''WINDBREAK'', (''Windbreak'', GLine)),
      (''SHED'', (''Tool Shed'', GPoint)),
      (''POND'', (''Pond'', GPolygon)),
      (''HERB_SPIRAL'', (''Herb Spiral'', GPoint)),
      (''MANDALA_GARDEN'', (''Mandala Garden'', GPoint)),
      (''SWALE'', (''Swale'', GLine)),
      (''POND_AREA'', (''Pond Area'', GPolygon)),
      (''VEGETABLE_GARDEN'', (''Vegetable Garden'', GPolygon)),
      (''FRUIT_ORCHARD'', (''Fruit Orchard'', GPolygon)),
      (''GRAIN_FIELD'', (''Grain Field'', GPolygon))]"

text \<open>The closed 36-gon \<open>[lat + r cos a, lng + r sin a]\<close>, \<open>a = 0, 10, \<dots>, 350\<close> degrees,
  with the first point pushed again at the end.\<close>

definition circle_polygon :: "real \<Rightarrow> real \<Rightarrow> real \<Rightarrow> (real \<times> real) list" where
  "circle_polygon lat0 lng0 radius =
     (let polygonPoints =
            map (\<lambda>i. (lat0 + radius * cos (real (i * 10) * pi / 180),
                       lng0 + radius * sin (real (i * 10) * pi / 180))) [0..<36]
      in polygonPoints @ [polygonPoints ! 0])"

text \<open>
  \<open>onMapClick\<close> on the element list and the marker; \<open>now\<close> is \<open>Date.now()\<close>.  The
  boundary handed to \<open>isPointInBoundary\<close> is the array \<open>latLngCoords\<close>.  With no
  element kind selected the click moves the marker (the climate and water-source
  updates of that branch are left out).
\<close>

definition onMapClick ::
  "real \<Rightarrow> string option \<Rightarrow> boundary \<Rightarrow> real \<times> real \<Rightarrow>
   element list \<times> (real \<times> real) \<Rightarrow> element list \<times> (real \<times> real)" where
  "onMapClick now selectedElementType b latlng st =
     (case latlng of (lat0, lng0) \<Rightarrow>
      case selectedElementType of
        None \<Rightarrow> (fst st, (lat0, lng0))
      | Some sel \<Rightarrow>
          (case ELEMENT_TYPES sel of
             None \<Rightarrow> st
           | Some (nm, g) \<Rightarrow>
               let boundaryForUtils =
                     (case b of
                        Feature coordinates \<Rightarrow>
                          CoordArray (map (\<lambda>coord. (snd coord, fst coord)) coordinates)
                      | _ \<Rightarrow> Null);
                   isInsideBoundary =
                     (if b \<noteq> Null \<and> boundaryForUtils \<noteq> Null
                      then isPointInBoundary (lat0, lng0) boundaryForUtils else True);
                   newElement =
                     (case g of
                        GPoint \<Rightarrow>
                          \<lparr>etype = sel, geom = Position (lat0, lng0), name = Name nm, eid = now\<rparr>
                      | GPolygon \<Rightarrow>
                          \<lparr>etype = sel, geom = Polygon (circle_polygon lat0 lng0 (2 / 1000)),
                           name = Name nm, eid = now\<rparr>
                      | GLine \<Rightarrow>
                          \<lparr>etype = sel,
                           geom = Points [(lat0 - (3 / 1000) / 2, lng0 - (3 / 1000) / 2),
                                          (lat0 + (3 / 1000) / 2, lng0 + (3 / 1000) / 2)],
                           name = Name nm, eid = now\<rparr>)
               in if \<not> isInsideBoundary then st
                  else (fst st @ [newElement], snd st)))"

text \<open>
  \<open>onElementDrag(id, newPosition)\<close>, with \<open>newPosition = {lat, lng}\<close> as the pair
  \<open>(lat, lng)\<close>.  The point handed to \<open>isPointInBoundary\<close> is the array
  \<open>[newPosition.lng, newPosition.lat]\<close>.
\<close>

definition onElementDrag ::
  "boundary \<Rightarrow> real \<Rightarrow> real \<times> real \<Rightarrow> element list \<Rightarrow> element list" where
  "onElementDrag b ident newPosition prev =
     map (\<lambda>el.
            case geom el of
              Position old \<Rightarrow>
                if eid el = ident then
                  (let isInsideBoundary =
                         (b = Null \<or> isPointInBoundary (snd newPosition, fst newPosition) b)
                   in if \<not> isInsideBoundary then el
                      else el\<lparr>geom := Position (fst newPosition, snd newPosition)\<rparr>)
                else el
            | _ \<Rightarrow> el) prev"

text \<open>Inputs used below: the unit square, and a rectangle ten degrees of longitude
  wide and one degree of latitude high, both closed rings of \<open>[lng, lat]\<close> pairs.\<close>

definition unit_square :: ring where
  "unit_square = [(0, 0), (1, 0), (1, 1), (0, 1), (0, 0)]"

definition wide_rectangle :: ring where
  "wide_rectangle = [(0, 0), (10, 0), (10, 1), (0, 1), (0, 0)]"

definition tank_at :: "real \<times> real \<Rightarrow> element" where
  "tank_at pos = \<lparr>etype = ''WATER_TANK'', geom = Position pos, name = Name ''Water Tank'', eid = 1\<rparr>"

definition rnd_half :: "nat \<Rightarrow> real" where
  "rnd_half k = 1 / 2"

text \<open>A ring of no area between \<open>[4, 2]\<close> and \<open>[0, 0]\<close>: no point is inside it.\<close>

definition slanted_ring :: ring where
  "slanted_ring = [(4, 2), (0, 0), (4, 2)]"

definition contour_demo :: "sample list" where
  "contour_demo =
     replicate 11 \<lparr>lat = 0, lng = 0, elevation = 3\<rparr> @ [\<lparr>lat = 0, lng = 0, elevation = 4\<rparr>]"

section \<open>Elevation model: \<open>DEMUtils.generateDEM\<close>\<close>

text \<open>
  The arithmetic of the elevation formula on values that may be non-finite.  The
  divisor \<open>lngRange\<close> is a difference, so a zero divisor is \<open>+0\<close>.
\<close>

definition js_div :: "real \<Rightarrow> real \<Rightarrow> jsnum" where
  "js_div a b =
     (if b = 0 then (if a = 0 then NaN else if 0 < a then PInf else NInf)
      else Fin (a / b))"

fun js_times :: "jsnum \<Rightarrow> real \<Rightarrow> jsnum" where
  "js_times (Fin a) c = Fin (a * c)"
| "js_times PInf c = (if 0 < c then PInf else if c < 0 then NInf else NaN)"
| "js_times NInf c = (if 0 < c then NInf else if c < 0 then PInf else NaN)"
| "js_times NaN c = NaN"

fun js_plus :: "jsnum \<Rightarrow> real \<Rightarrow> jsnum" where
  "js_plus (Fin a) c = Fin (a + c)"
| "js_plus v c = v"

text \<open>\<open>Math.max(c, v)\<close>, \<open>parseFloat(v.toFixed(1))\<close> and \<open>v >= c\<close> for a finite \<open>c\<close>.\<close>

fun js_max :: "real \<Rightarrow> jsnum \<Rightarrow> jsnum" where
  "js_max c (Fin a) = Fin (max c a)"
| "js_max c PInf = PInf"
| "js_max c NInf = Fin c"
| "js_max c NaN = NaN"

fun js_toFixed1 :: "jsnum \<Rightarrow> jsnum" where
  "js_toFixed1 (Fin a) = Fin (toFixed1 a)"
| "js_toFixed1 v = v"

fun js_ge :: "jsnum \<Rightarrow> real \<Rightarrow> bool" where
  "js_ge (Fin a) c = (c \<le> a)"
| "js_ge PInf c = True"
| "js_ge NInf c = False"
| "js_ge NaN c = False"

fun js_finite :: "jsnum \<Rightarrow> bool" where
  "js_finite (Fin a) = True"
| "js_finite v = False"

text \<open>Sum, difference, absolute value, quotient by a finite number and \<open>v < c\<close> on
  values that may be non-finite; \<open>Infinity - Infinity\<close> is \<open>NaN\<close>, and a comparison with
  \<open>NaN\<close> is false.\<close>

fun js_add :: "jsnum \<Rightarrow> jsnum \<Rightarrow> jsnum" where
  "js_add NaN w = NaN"
| "js_add v NaN = NaN"
| "js_add (Fin a) (Fin c) = Fin (a + c)"
| "js_add (Fin a) w = w"
| "js_add v (Fin c) = v"
| "js_add PInf PInf = PInf"
| "js_add NInf NInf = NInf"
| "js_add PInf NInf = NaN"
| "js_add NInf PInf = NaN"

fun js_uminus :: "jsnum \<Rightarrow> jsnum" where
  "js_uminus (Fin a) = Fin (- a)"
| "js_uminus PInf = NInf"
| "js_uminus NInf = PInf"
| "js_uminus NaN = NaN"

definition js_sub :: "jsnum \<Rightarrow> jsnum \<Rightarrow> jsnum" where
  "js_sub v w = js_add v (js_uminus w)"

fun js_abs :: "jsnum \<Rightarrow> jsnum" where
  "js_abs (Fin a) = Fin \<bar>a\<bar>"
| "js_abs PInf = PInf"
| "js_abs NInf = PInf"
| "js_abs NaN = NaN"

fun js_divide :: "jsnum \<Rightarrow> real \<Rightarrow> jsnum" where
  "js_divide (Fin a) c = js_div a c"
| "js_divide PInf c = (if c < 0 then NInf else PInf)"
| "js_divide NInf c = (if c < 0 then PInf else NInf)"
| "js_divide NaN c = NaN"

fun js_lt :: "jsnum \<Rightarrow> real \<Rightarrow> bool" where
  "js_lt (Fin a) c = (a < c)"
| "js_lt PInf c = False"
| "js_lt NInf c = True"
| "js_lt NaN c = False"

record dem_point =
  plat :: real
  plng :: real
  pelevation :: jsnum

text \<open>
  The sample of grid cell \<open>(i, j)\<close> in the branch with a boundary.  The unused local
  \<open>distanceFromCenter\<close> is left out.  The random number of the cell is the one of
  index \<open>i * (points + 1) + j\<close>.
\<close>

definition dem_boundary_sample :: "(nat \<Rightarrow> real) \<Rightarrow> ring \<Rightarrow> nat \<Rightarrow> nat \<Rightarrow> nat \<Rightarrow> dem_point" where
  "dem_boundary_sample rnd coords pts i j =
     (case bbox coords of (minLng, maxLng, minLat, maxLat) \<Rightarrow>
        let latRange = maxLat - minLat;
            lngRange = maxLng - minLng;
            pointLat = minLat + (real i / real pts) * latRange;
            pointLng = minLng + (real j / real pts) * lngRange;
            e0 = 5 + sin (pointLat * 50) * 3 + cos (pointLng * 50) * 2;
            e1 = js_plus (js_times (js_div (pointLng - minLng) lngRange) 8) e0;
            e2 = js_plus e1 ((rnd (i * (pts + 1) + j) - 1 / 2) * 2);
            e3 = js_max 2 e2
        in \<lparr>plat = pointLat, plng = pointLng, pelevation = js_toFixed1 e3\<rparr>)"

text \<open>\<open>points = Math.max(15, Math.floor(latRange * 2000))\<close>.\<close>

definition dem_points :: "ring \<Rightarrow> nat" where
  "dem_points coords =
     (case bbox coords of (minLng, maxLng, minLat, maxLat) \<Rightarrow>
        nat (max 15 \<lfloor>(maxLat - minLat) * 2000\<rfloor>))"

text \<open>The sample of cell \<open>(i, j)\<close>, \<open>-15 \<le> i, j \<le> 15\<close>, in the branch without a
  boundary, where \<open>points = 15\<close>.\<close>

definition dem_radius_sample :: "(nat \<Rightarrow> real) \<Rightarrow> real \<Rightarrow> real \<Rightarrow> real \<Rightarrow> int \<Rightarrow> int \<Rightarrow> dem_point" where
  "dem_radius_sample rnd lat0 lng0 radius i j =
     (let step = radius / 15;
          pointLat = lat0 + real_of_int i * step;
          pointLng = lng0 + real_of_int j * step;
          e = 10 + real_of_int i * (3 / 10) + sin (pointLat * 50) * 2
                + rnd (nat ((i + 15) * 31 + (j + 15))) * (1 / 2)
      in \<lparr>plat = pointLat, plng = pointLng, pelevation = Fin (toFixed1 e)\<rparr>)"

definition generateDEM :: "(nat \<Rightarrow> real) \<Rightarrow> real \<Rightarrow> real \<Rightarrow> real \<Rightarrow> boundary \<Rightarrow> dem_point list" where
  "generateDEM rnd lat0 lng0 radius b =
     (case b of
        Feature coords \<Rightarrow>
          concat (map (\<lambda>i. map (\<lambda>j. dem_boundary_sample rnd coords (dem_points coords) i j)
                              [0..<dem_points coords + 1])
                      [0..<dem_points coords + 1])
      | _ \<Rightarrow>
          concat (map (\<lambda>i. map (\<lambda>j. dem_radius_sample rnd lat0 lng0 radius i j) [- 15..15])
                      [- 15..15]))"

section \<open>Topographic analysis: \<open>DEMUtils.calculateTopography\<close>\<close>

text \<open>\<open>Math.atan2(y, x)\<close> on finite arguments; both arguments are differences, so a
  zero is \<open>+0\<close>.\<close>

definition atan2 :: "real \<Rightarrow> real \<Rightarrow> real" where
  "atan2 y x =
     (if 0 < x then arctan (y / x)
      else if x < 0 then (if 0 \<le> y then arctan (y / x) + pi else arctan (y / x) - pi)
      else if 0 < y then pi / 2
      else if y < 0 then - (pi / 2)
      else 0)"

text \<open>
  The slope and the aspect of the source on finite elevations.  They are the
  finite case of \<open>dem_slope\<close> and \<open>dem_aspect\<close> below, and what the functions on the
  store compute.
\<close>

definition topo_slope :: "sample \<Rightarrow> sample list \<Rightarrow> real" where
  "topo_slope point neighbors =
     (let elevations = map elevation neighbors;
          avgElevation = fold (\<lambda>e sum. sum + e) elevations 0 / real (length elevations)
      in \<bar>elevation point - avgElevation\<bar> * 100)"

definition topo_aspect :: "sample \<Rightarrow> sample list \<Rightarrow> real" where
  "topo_aspect point neighbors =
     (case (find (\<lambda>p. lng p > lng point \<and> \<bar>lat p - lat point\<bar> < 1 / 1000) neighbors,
            find (\<lambda>p. lat p > lat point \<and> \<bar>lng p - lng point\<bar> < 1 / 1000) neighbors) of
        (Some eastNeighbor, Some northNeighbor) \<Rightarrow>
          (let dz_dx = elevation eastNeighbor - elevation point;
               dz_dy = elevation northNeighbor - elevation point;
               a = atan2 dz_dy dz_dx * 180 / pi
           in if a < 0 then a + 360 else a)
      | _ \<Rightarrow> 0)"

text \<open>
  \<open>Math.atan2\<close> on values that may be non-finite.  An infinite argument behaves as a
  limit: two infinite arguments give an odd multiple of \<open>\<pi>/4\<close>, an infinite \<open>y\<close> gives
  \<open>\<plusminus>\<pi>/2\<close>, and an infinite \<open>x\<close> gives \<open>0\<close> or \<open>\<plusminus>\<pi>\<close>.
\<close>

fun js_atan2 :: "jsnum \<Rightarrow> jsnum \<Rightarrow> jsnum" where
  "js_atan2 NaN w = NaN"
| "js_atan2 v NaN = NaN"
| "js_atan2 (Fin y) (Fin x) = Fin (atan2 y x)"
| "js_atan2 PInf PInf = Fin (pi / 4)"
| "js_atan2 PInf NInf = Fin (3 * pi / 4)"
| "js_atan2 NInf PInf = Fin (- (pi / 4))"
| "js_atan2 NInf NInf = Fin (- (3 * pi / 4))"
| "js_atan2 PInf (Fin x) = Fin (pi / 2)"
| "js_atan2 NInf (Fin x) = Fin (- (pi / 2))"
| "js_atan2 (Fin y) PInf = Fin 0"
| "js_atan2 (Fin y) NInf = (if 0 \<le> y then Fin pi else Fin (- pi))"

text \<open>
  \<open>calculateTopography\<close> is called on the output of \<open>generateDEM\<close>, whose elevations
  may be \<open>NaN\<close>, and emits \<open>{...point, slope, aspect}\<close>.
\<close>

record topo_point = dem_point +
  pslope :: jsnum
  paspect :: jsnum

text \<open>
  The neighbours of \<open>point = sortedData[i]\<close>.  The test \<open>p !== point\<close> compares
  objects: the samples of the array are distinct objects, so it compares indices.
\<close>

definition dem_neighbors :: "dem_point list \<Rightarrow> nat \<Rightarrow> dem_point \<Rightarrow> dem_point list" where
  "dem_neighbors sortedData i point =
     map snd (filter (\<lambda>(j, p). j \<noteq> i \<and> \<bar>plat p - plat point\<bar> < 3 / 1000 \<and>
                              \<bar>plng p - plng point\<bar> < 3 / 1000)
                     (enumerate 0 sortedData))"

definition dem_slope :: "dem_point \<Rightarrow> dem_point list \<Rightarrow> jsnum" where
  "dem_slope point neighbors =
     (let elevations = map pelevation neighbors;
          avgElevation = js_divide (fold (\<lambda>e sum. js_add sum e) elevations (Fin 0))
                                   (real (length elevations))
      in js_times (js_abs (js_sub (pelevation point) avgElevation)) 100)"

definition dem_aspect :: "dem_point \<Rightarrow> dem_point list \<Rightarrow> jsnum" where
  "dem_aspect point neighbors =
     (case (find (\<lambda>p. plng p > plng point \<and> \<bar>plat p - plat point\<bar> < 1 / 1000) neighbors,
            find (\<lambda>p. plat p > plat point \<and> \<bar>plng p - plng point\<bar> < 1 / 1000) neighbors) of
        (Some eastNeighbor, Some northNeighbor) \<Rightarrow>
          (let dz_dx = js_sub (pelevation eastNeighbor) (pelevation point);
               dz_dy = js_sub (pelevation northNeighbor) (pelevation point);
               a = js_divide (js_times (js_atan2 dz_dy dz_dx) 180) pi
           in if js_lt a 0 then js_add a (Fin 360) else a)
      | _ \<Rightarrow> Fin 0)"

definition calculateTopography :: "dem_point list \<Rightarrow> topo_point list" where
  "calculateTopography demData =
     (let sortedData = sort_key (\<lambda>p. (plat p, plng p)) demData
      in concat (map (\<lambda>(i, point).
                        let neighbors = dem_neighbors sortedData i point
                        in if length neighbors \<ge> 3
                           then [\<lparr>plat = plat point, plng = plng point,
                                  pelevation = pelevation point,
                                  pslope = js_toFixed1 (dem_slope point neighbors),
                                  paspect = js_toFixed1 (dem_aspect point neighbors)\<rparr>]
                           else [])
                     (enumerate 0 sortedData)))"

text \<open>A sample with a finite elevation, as a sample of the elevation model.\<close>

definition dem_of :: "sample \<Rightarrow> dem_point" where
  "dem_of s = \<lparr>plat = lat s, plng = lng s, pelevation = Fin (elevation s)\<rparr>"

section \<open>High and low points, water flow\<close>

text \<open>\<open>[...topography].sort(cmp).slice(0, count)\<close>; the sort is stable.\<close>

definition findHighPoints :: "('a sample_scheme) list \<Rightarrow> nat \<Rightarrow> ('a sample_scheme) list" where
  "findHighPoints topography n = take n (sort_key (\<lambda>p. - elevation p) topography)"

definition findLowPoints :: "('a sample_scheme) list \<Rightarrow> nat \<Rightarrow> ('a sample_scheme) list" where
  "findLowPoints topography n = take n (sort_key (\<lambda>p. elevation p) topography)"

text \<open>The set \<open>processedPoints\<close> holds the strings \<open>lat,lng\<close>; its members are
  modelled as the pairs \<open>(lat, lng)\<close>.\<close>

definition point_key :: "'a sample_scheme \<Rightarrow> real \<times> real" where
  "point_key p = (lat p, lng p)"

definition flow_neighbors ::
  "('a sample_scheme) list \<Rightarrow> (real \<times> real) set \<Rightarrow> 'a sample_scheme \<Rightarrow> ('a sample_scheme) list" where
  "flow_neighbors topography processedPoints currentPoint =
     filter (\<lambda>p. point_key p \<notin> processedPoints \<and>
                 \<bar>lat p - lat currentPoint\<bar> < 2 / 1000 \<and>
                 \<bar>lng p - lng currentPoint\<bar> < 2 / 1000 \<and>
                 elevation p < elevation currentPoint) topography"

text \<open>\<open>neighbors.reduce(\<dots>, neighbors[0])\<close> on a non-empty \<open>neighbors\<close>.\<close>

definition steepest_neighbor ::
  "'a sample_scheme \<Rightarrow> 'a sample_scheme \<Rightarrow> ('a sample_scheme) list \<Rightarrow> 'a sample_scheme" where
  "steepest_neighbor currentPoint first neighbors =
     fold (\<lambda>p steepest.
             if elevation currentPoint - elevation p > elevation currentPoint - elevation steepest
             then p else steepest) neighbors first"

text \<open>The loop \<open>for (step = 0; step < 20; step++)\<close>, on the number of steps left.\<close>

fun flow_walk ::
  "nat \<Rightarrow> ('a sample_scheme) list \<Rightarrow> (real \<times> real) set \<Rightarrow> 'a sample_scheme \<Rightarrow>
   ('a sample_scheme) list \<Rightarrow> ('a sample_scheme) list \<times> (real \<times> real) set" where
  "flow_walk 0 topography processedPoints currentPoint path = (path, processedPoints)"
| "flow_walk (Suc n) topography processedPoints currentPoint path =
     (case flow_neighbors topography processedPoints currentPoint of
        [] \<Rightarrow> (path, processedPoints)
      | first # others \<Rightarrow>
          (let nextPoint = steepest_neighbor currentPoint first (first # others)
           in flow_walk n topography (insert (point_key nextPoint) processedPoints) nextPoint
                (path @ [nextPoint])))"

definition flow_from ::
  "('a sample_scheme) list \<Rightarrow> 'a sample_scheme \<Rightarrow>
   ('a sample_scheme) list list \<times> (real \<times> real) set \<Rightarrow>
   ('a sample_scheme) list list \<times> (real \<times> real) set" where
  "flow_from topography startPoint st =
     (case st of (flowPaths, processedPoints) \<Rightarrow>
        if point_key startPoint \<in> processedPoints then (flowPaths, processedPoints)
        else (case flow_walk 20 topography (insert (point_key startPoint) processedPoints)
                     startPoint [startPoint] of
                (path, processedPoints') \<Rightarrow>
                  (if length path > 3 then flowPaths @ [path] else flowPaths, processedPoints')))"

definition calculateWaterFlow :: "('a sample_scheme) list \<Rightarrow> ('a sample_scheme) list list" where
  "calculateWaterFlow topography =
     fst (fold (flow_from topography) (findHighPoints topography 10) ([], {}))"

text \<open>Inputs used below.\<close>

definition zero_width_triangle :: ring where
  "zero_width_triangle = [(0, 0), (0, 1 / 1000), (0, 2 / 1000), (0, 0)]"

definition zero_width_plot :: ring where
  "zero_width_plot =
     [(7627 / 100, 1085 / 100), (7627 / 100, 10851 / 1000), (7627 / 100, 10852 / 1000),
      (7627 / 100, 1085 / 100)]"

definition flow_demo :: "topo list" where
  "flow_demo =
     [\<lparr>lat = 0, lng = 0, elevation = 9, slope = 0, aspect = 0\<rparr>,
      \<lparr>lat = 15 / 10000, lng = 0, elevation = 8, slope = 0, aspect = 0\<rparr>,
      \<lparr>lat = 30 / 10000, lng = 0, elevation = 7, slope = 0, aspect = 0\<rparr>,
      \<lparr>lat = 45 / 10000, lng = 0, elevation = 6, slope = 0, aspect = 0\<rparr>]"

section \<open>Placement synthesis: \<open>autoDesignLayout\<close>\<close>

text \<open>\<open>elements.some(e => e.type === t)\<close>.\<close>

definition has_type :: "string \<Rightarrow> element list \<Rightarrow> bool" where
  "has_type t els = list_ex (\<lambda>e. etype e = t) els"

text \<open>
  The body of the timer callback is a sequence of steps on \<open>newElements\<close> and the
  index \<open>k\<close> of the next random number.  Every step tests the list \<open>elements\<close> of the
  invocation, not \<open>newElements\<close>.  \<open>Date.now()\<close> is the one value \<open>now\<close>.
\<close>

type_synonym synth = "element list \<times> nat"

definition step_house :: "(nat \<Rightarrow> real) \<Rightarrow> real \<Rightarrow> boundary \<Rightarrow> element list \<Rightarrow> synth \<Rightarrow> synth" where
  "step_house rnd now b elements st =
     (case st of (newElements, k) \<Rightarrow>
        if \<not> has_type ''HOUSE'' elements then
          (case generateRandomPointInBoundary rnd b k of
             (housePoint, warned, k') \<Rightarrow>
               (newElements @
                  [\<lparr>etype = ''HOUSE'', geom = Position housePoint, name = Name ''House'', eid = now\<rparr>],
                k'))
        else st)"

text \<open>\<open>setMarker(housePoint)\<close>: the marker after the callback.\<close>

definition marker_after :: "(nat \<Rightarrow> real) \<Rightarrow> boundary \<Rightarrow> element list \<Rightarrow> real \<times> real \<Rightarrow> real \<times> real" where
  "marker_after rnd b elements marker =
     (if \<not> has_type ''HOUSE'' elements then fst (generateRandomPointInBoundary rnd b 0)
      else marker)"

text \<open>\<open>elements.find(e => e.type === 'HOUSE')?.position || marker\<close>.\<close>

definition housePos :: "element list \<Rightarrow> real \<times> real \<Rightarrow> real \<times> real" where
  "housePos elements marker =
     (case find (\<lambda>e. etype e = ''HOUSE'') elements of
        Some e \<Rightarrow> (case geom e of Position pos \<Rightarrow> pos | _ \<Rightarrow> marker)
      | None \<Rightarrow> marker)"

text \<open>\<open>xs.reduce((best, point) => point.elevation > best.elevation ? point : best, xs[0])\<close>
  and its mirror image, on a non-empty \<open>xs\<close> with first element \<open>first\<close>.\<close>

definition highest_of :: "'a sample_scheme \<Rightarrow> ('a sample_scheme) list \<Rightarrow> 'a sample_scheme" where
  "highest_of first xs =
     fold (\<lambda>point highest. if elevation point > elevation highest then point else highest) xs first"

definition lowest_of :: "'a sample_scheme \<Rightarrow> ('a sample_scheme) list \<Rightarrow> 'a sample_scheme" where
  "lowest_of first xs =
     fold (\<lambda>point lowest. if elevation point < elevation lowest then point else lowest) xs first"

definition step_water_tank ::
  "real \<Rightarrow> boundary \<Rightarrow> topo list \<Rightarrow> element list \<Rightarrow> synth \<Rightarrow> synth" where
  "step_water_tank now b topography elements st =
     (case st of (newElements, k) \<Rightarrow>
        let highPoints = findHighPoints topography 20;
            boundaryHighPoints = filterPointsInBoundary highPoints b
        in case boundaryHighPoints of
             [] \<Rightarrow> st
           | first # others \<Rightarrow>
               if \<not> has_type ''WATER_TANK'' elements then
                 (let highestPoint = highest_of first boundaryHighPoints
                  in (newElements @
                        [\<lparr>etype = ''WATER_TANK'',
                          geom = Position (lat highestPoint, lng highestPoint),
                          name = Name ''Water Tank'', eid = now + 1\<rparr>], k))
               else st)"

definition step_pond ::
  "real \<Rightarrow> boundary \<Rightarrow> topo list \<Rightarrow> real \<Rightarrow> element list \<Rightarrow> synth \<Rightarrow> synth" where
  "step_pond now b topography baseElementSize elements st =
     (case st of (newElements, k) \<Rightarrow>
        let lowPoints = findLowPoints topography 20;
            boundaryLowPoints = filterPointsInBoundary lowPoints b
        in case boundaryLowPoints of
             [] \<Rightarrow> st
           | first # others \<Rightarrow>
               if \<not> has_type ''POND_AREA'' elements then
                 (let lowestPoint = lowest_of first boundaryLowPoints;
                      pondRadius = baseElementSize * (8 / 10)
                  in (newElements @
                        [\<lparr>etype = ''POND_AREA'',
                          geom = Polygon (circle_polygon (lat lowestPoint) (lng lowestPoint) pondRadius),
                          name = Name ''Pond Area'', eid = now + 2\<rparr>], k))
               else st)"

text \<open>Compost, chicken coop, beehive and tool shed: a fixed offset from the house
  position, placed only if the offset point is inside the boundary.\<close>

definition step_offset ::
  "string \<Rightarrow> string \<Rightarrow> real \<times> real \<Rightarrow> real \<Rightarrow> boundary \<Rightarrow> real \<times> real \<Rightarrow>
   element list \<Rightarrow> synth \<Rightarrow> synth" where
  "step_offset kind nm offset ident b hpos elements st =
     (case st of (newElements, k) \<Rightarrow>
        if \<not> has_type kind elements then
          (let pos = (fst hpos + fst offset, snd hpos + snd offset)
           in if isPointInBoundary pos b
              then (newElements @ [\<lparr>etype = kind, geom = Position pos, name = Name nm, eid = ident\<rparr>], k)
              else st)
        else st)"

text \<open>\<open>contour.points.filter((_, index) => index % 3 === 0)\<close>.\<close>

definition every_third :: "'a list \<Rightarrow> 'a list" where
  "every_third xs = map snd (filter (\<lambda>(index, x). index mod 3 = 0) (enumerate 0 xs))"

text \<open>The loop over the contours that fills \<open>swaleLines\<close> with \<open>(points, name, id)\<close>.\<close>

definition swale_lines ::
  "real \<Rightarrow> boundary \<Rightarrow> contour list \<Rightarrow> ((real \<times> real) list \<times> label \<times> real) list" where
  "swale_lines now b contours =
     fold (\<lambda>contour swaleLines.
             if length (points contour) > 5 then
               (let simplifiedPoints = every_third (points contour)
                in if length simplifiedPoints > 2 then
                     (let validPoints =
                            filter (\<lambda>point. isPointInBoundary (lat point, lng point) b) simplifiedPoints
                      in if length validPoints > 2
                         then swaleLines @
                                [(map (\<lambda>p. (lat p, lng p)) validPoints, SwaleAt (level contour),
                                  now + 7 + real (length swaleLines))]
                         else swaleLines)
                   else swaleLines)
             else swaleLines) contours []"

text \<open>The swale step calls \<open>generateContours(demData, 1)\<close>; it returns when that
  call does.\<close>

definition step_swales ::
  "real \<Rightarrow> boundary \<Rightarrow> sample list \<Rightarrow> element list \<Rightarrow> synth \<Rightarrow> synth option" where
  "step_swales now b demData elements st =
     (case st of (newElements, k) \<Rightarrow>
        if \<not> has_type ''SWALE'' elements then
          (case generateContours demData 1 of
             None \<Rightarrow> None
           | Some contours \<Rightarrow>
               Some (newElements @
                       map (\<lambda>(pts, nm, ident). \<lparr>etype = ''SWALE'', geom = Points pts, name = nm, eid = ident\<rparr>)
                           (take 3 (swale_lines now b contours)), k))
        else Some st)"

definition step_windbreak ::
  "(nat \<Rightarrow> real) \<Rightarrow> real \<Rightarrow> boundary \<Rightarrow> real \<Rightarrow> real \<Rightarrow> element list \<Rightarrow> synth \<Rightarrow> synth" where
  "step_windbreak rnd now b boundaryDiagonal windDirection elements st =
     (case st of (newElements, k) \<Rightarrow>
        if \<not> has_type ''WINDBREAK'' elements then
          (case generateRandomPointInBoundary rnd b k of
             (startPoint, warned, k') \<Rightarrow>
               let windAngle = (windDirection + 90) * pi / 180;
                   windbreakLength = boundaryDiagonal * (3 / 10);
                   endPoint = (fst startPoint + windbreakLength * cos windAngle,
                               snd startPoint + windbreakLength * sin windAngle);
                   adjustedEndPoint =
                     (if \<not> isPointInBoundary endPoint b then findClosestPointOnBoundary endPoint b
                      else endPoint)
               in if isPointInBoundary startPoint b \<and> isPointInBoundary adjustedEndPoint b
                  then (newElements @
                          [\<lparr>etype = ''WINDBREAK'', geom = Points [startPoint, adjustedEndPoint],
                            name = Name ''Windbreak'', eid = now + 8\<rparr>], k')
                  else (newElements, k'))
        else st)"

text \<open>\<open>ELEMENT_TYPES[area.type].name\<close>, for the three zone kinds of the catalog.\<close>

definition element_name :: "string \<Rightarrow> string" where
  "element_name t = (case ELEMENT_TYPES t of Some (nm, g) \<Rightarrow> nm | None \<Rightarrow> [])"

definition zoneAreas :: "real \<Rightarrow> (string \<times> real) list" where
  "zoneAreas baseElementSize =
     [(''VEGETABLE_GARDEN'', baseElementSize),
      (''FRUIT_ORCHARD'', baseElementSize * (12 / 10)),
      (''GRAIN_FIELD'', baseElementSize * (15 / 10))]"

definition step_zone ::
  "(nat \<Rightarrow> real) \<Rightarrow> real \<Rightarrow> boundary \<Rightarrow> element list \<Rightarrow> string \<times> real \<Rightarrow> synth \<Rightarrow> synth" where
  "step_zone rnd now b elements area st =
     (case st of (newElements, k) \<Rightarrow>
        if \<not> has_type (fst area) elements then
          (case generateRandomPointInBoundary rnd b k of
             (randomPoint, warned, k') \<Rightarrow>
               (newElements @
                  [\<lparr>etype = fst area,
                    geom = Polygon (circle_polygon (fst randomPoint) (snd randomPoint) (snd area)),
                    name = Name (element_name (fst area)),
                    eid = now + 20 + rnd k' * 1000\<rparr>], k' + 1))
        else st)"

text \<open>
  The result is the list given to \<open>setElements\<close> and the marker; with no boundary the
  function alerts and changes nothing.
\<close>

definition autoDesignLayout ::
  "(nat \<Rightarrow> real) \<Rightarrow> real \<Rightarrow> boundary \<Rightarrow> topo list \<Rightarrow> sample list \<Rightarrow> real \<times> real \<Rightarrow> real \<Rightarrow>
   element list \<Rightarrow> (element list \<times> (real \<times> real)) option" where
  "autoDesignLayout rnd now b topography demData marker windDirection elements =
     (if b = Null then Some (elements, marker)
      else
        let boundarySize = getBoundaryApproximateSize b;
            boundaryDiagonal = sqrt (fst boundarySize * fst boundarySize
                                     + snd boundarySize * snd boundarySize);
            baseElementSize = boundaryDiagonal * (1 / 10);
            hpos = housePos elements marker;
            st1 = step_house rnd now b elements (elements, 0);
            st2 = step_water_tank now b topography elements st1;
            st3 = step_pond now b topography baseElementSize elements st2;
            st4 = step_offset ''COMPOST'' ''Compost'' (3 / 10000, 2 / 10000) (now + 3) b hpos elements st3;
            st5 = step_offset ''CHICKEN_COOP'' ''Chicken Coop'' (5 / 10000, 4 / 10000) (now + 4) b hpos
                    elements st4;
            st6 = step_offset ''BEEHIVE'' ''Beehive'' (4 / 10000, - (3 / 10000)) (now + 5) b hpos
                    elements st5;
            st7 = step_offset ''SHED'' ''Tool Shed'' (1 / 10000, 2 / 10000) (now + 6) b hpos elements st6
        in case step_swales now b demData elements st7 of
             None \<Rightarrow> None
           | Some st8 \<Rightarrow>
               let st9 = step_windbreak rnd now b boundaryDiagonal windDirection elements st8;
                   st10 = fold (step_zone rnd now b elements) (zoneAreas baseElementSize) st9
               in Some (fst st10, marker_after rnd b elements marker))"

text \<open>Inputs used below: twenty samples east of the unit square at 10 m, and one
  sample inside it at 5 m.\<close>

definition outside_high :: topo where
  "outside_high = \<lparr>lat = 1 / 2, lng = 3, elevation = 10, slope = 0, aspect = 0\<rparr>"

definition inside_low :: topo where
  "inside_low = \<lparr>lat = 1 / 2, lng = 1 / 2, elevation = 5, slope = 0, aspect = 0\<rparr>"

definition inside_top :: topo where
  "inside_top = \<lparr>lat = 1 / 4, lng = 1 / 4, elevation = 7, slope = 0, aspect = 0\<rparr>"

definition count_type :: "string \<Rightarrow> element list \<Rightarrow> nat" where
  "count_type t els = length (filter (\<lambda>e. etype e = t) els)"

text \<open>The kinds that the synthesis places.\<close>

definition synthesized_kinds :: "string list" where
  "synthesized_kinds =
     [''HOUSE'', ''WATER_TANK'', ''POND_AREA'', ''COMPOST'', ''CHICKEN_COOP'', ''BEEHIVE'', ''SHED'',
      ''SWALE'', ''WINDBREAK'', ''VEGETABLE_GARDEN'', ''FRUIT_ORCHARD'', ''GRAIN_FIELD'']"

text \<open>\<open>newElements\<close> is \<open>elements\<close> followed by elements of synthesized kinds that
  \<open>elements\<close> does not hold.\<close>

definition appends_new :: "element list \<Rightarrow> element list \<Rightarrow> bool" where
  "appends_new elements newElements =
     (\<exists>added. newElements = elements @ added \<and>
        (\<forall>e \<in> set added. \<not> has_type (etype e) elements \<and> etype e \<in> set synthesized_kinds))"

definition is_tank :: "element \<Rightarrow> bool" where
  "is_tank e = (etype e = ''WATER_TANK'')"

text \<open>The test of \<open>filterPointsInBoundary\<close> on one point.\<close>

definition in_boundary :: "boundary \<Rightarrow> 'a sample_scheme \<Rightarrow> bool" where
  "in_boundary b point =
     (case b of
        Feature coordinates \<Rightarrow> pointInPolygon (lng point, lat point) coordinates
      | _ \<Rightarrow> True)"

definition tank_counter_demo :: "topo list" where
  "tank_counter_demo = replicate 20 outside_high @ [inside_low]"

definition tank_demo :: "topo list" where
  "tank_demo = [inside_low, inside_top, outside_high]"

section \<open>The terrain functions on a store\<close>

text \<open>
  Arrays and sample objects are mutable and shared by reference.  To say what a
  call leaves unchanged, the four terrain functions are written once more on a
  store: an array is an address holding a list of references, an object is an
  address holding its properties, and \<open>fresh\<close> is the next address to allocate.
  \<open>slope\<close> and \<open>aspect\<close> are absent from an elevation sample.
\<close>

record jsobject =
  olat :: real
  olng :: real
  oelevation :: real
  oslope :: "real option"
  oaspect :: "real option"

record store =
  arrays :: "nat \<Rightarrow> nat list option"
  objects :: "nat \<Rightarrow> jsobject option"
  fresh :: nat

text \<open>Reading an array and an object.  The arrays of the program hold references to
  objects of the store; the defaults stand for a dangling reference.\<close>

definition elems :: "store \<Rightarrow> nat \<Rightarrow> nat list" where
  "elems h a = (case arrays h a of Some refs \<Rightarrow> refs | None \<Rightarrow> [])"

definition obj :: "store \<Rightarrow> nat \<Rightarrow> jsobject" where
  "obj h r =
     (case objects h r of
        Some ob \<Rightarrow> ob
      | None \<Rightarrow> \<lparr>olat = 0, olng = 0, oelevation = 0, oslope = None, oaspect = None\<rparr>)"

definition sample_of :: "jsobject \<Rightarrow> sample" where
  "sample_of ob = \<lparr>lat = olat ob, lng = olng ob, elevation = oelevation ob\<rparr>"

text \<open>
  The operations of the source that touch the store.  An array literal, a spread
  copy \<open>[...xs]\<close>, and the results of \<open>filter\<close>, \<open>map\<close> and \<open>slice\<close> are new arrays; an
  object literal is a new object; \<open>sort\<close> and \<open>push\<close> write to the array they are
  called on.
\<close>

definition new_array :: "nat list \<Rightarrow> store \<Rightarrow> nat \<times> store" where
  "new_array refs h = (fresh h, h\<lparr>arrays := (arrays h)(fresh h \<mapsto> refs), fresh := fresh h + 1\<rparr>)"

definition new_object :: "jsobject \<Rightarrow> store \<Rightarrow> nat \<times> store" where
  "new_object ob h = (fresh h, h\<lparr>objects := (objects h)(fresh h \<mapsto> ob), fresh := fresh h + 1\<rparr>)"

definition array_sort :: "(jsobject \<Rightarrow> 'k :: linorder) \<Rightarrow> nat \<Rightarrow> store \<Rightarrow> store" where
  "array_sort key a h = h\<lparr>arrays := (arrays h)(a \<mapsto> sort_key (\<lambda>r. key (obj h r)) (elems h a))\<rparr>"

definition array_push :: "nat \<Rightarrow> nat \<Rightarrow> store \<Rightarrow> store" where
  "array_push a r h = h\<lparr>arrays := (arrays h)(a \<mapsto> elems h a @ [r])\<rparr>"

text \<open>\<open>[...topography].sort(cmp).slice(0, count)\<close>: the copy is sorted in place, the
  slice is the result.\<close>

definition findHighPoints_st :: "nat \<Rightarrow> nat \<Rightarrow> store \<Rightarrow> nat \<times> store" where
  "findHighPoints_st topography n h =
     (case new_array (elems h topography) h of
        (copy, h1) \<Rightarrow>
          let h2 = array_sort (\<lambda>ob. - oelevation ob) copy h1
          in new_array (take n (elems h2 copy)) h2)"

definition findLowPoints_st :: "nat \<Rightarrow> nat \<Rightarrow> store \<Rightarrow> nat \<times> store" where
  "findLowPoints_st topography n h =
     (case new_array (elems h topography) h of
        (copy, h1) \<Rightarrow>
          let h2 = array_sort (\<lambda>ob. oelevation ob) copy h1
          in new_array (take n (elems h2 copy)) h2)"

text \<open>One round of the loop of \<open>calculateTopography\<close>, for the index \<open>i\<close>.  The arrays
  \<open>neighbors\<close> and \<open>elevations\<close> are new and local; only their contents are kept.\<close>

definition topography_round :: "nat \<Rightarrow> nat \<Rightarrow> nat \<Rightarrow> store \<Rightarrow> store" where
  "topography_round sortedData topography i h =
     (let point = elems h sortedData ! i;
          neighbors =
            filter (\<lambda>p. p \<noteq> point \<and>
                        \<bar>olat (obj h p) - olat (obj h point)\<bar> < 3 / 1000 \<and>
                        \<bar>olng (obj h p) - olng (obj h point)\<bar> < 3 / 1000)
                   (elems h sortedData)
      in if length neighbors \<ge> 3 then
           (case new_object
                   ((obj h point)
                      \<lparr>oslope := Some (toFixed1 (topo_slope (sample_of (obj h point))
                                                   (map (\<lambda>p. sample_of (obj h p)) neighbors))),
                       oaspect := Some (toFixed1 (topo_aspect (sample_of (obj h point))
                                                    (map (\<lambda>p. sample_of (obj h p)) neighbors)))\<rparr>) h of
              (entry, h') \<Rightarrow> array_push topography entry h')
         else h)"

definition calculateTopography_st :: "nat \<Rightarrow> store \<Rightarrow> nat \<times> store" where
  "calculateTopography_st demData h =
     (case new_array [] h of
        (topography, h1) \<Rightarrow>
          (case new_array (elems h1 demData) h1 of
             (sortedData, h2) \<Rightarrow>
               let h3 = array_sort (\<lambda>ob. (olat ob, olng ob)) sortedData h2
               in (topography,
                   fold (topography_round sortedData topography)
                        [0..<length (elems h3 sortedData)] h3)))"

definition object_key :: "jsobject \<Rightarrow> real \<times> real" where
  "object_key ob = (olat ob, olng ob)"

text \<open>The walk of \<open>calculateWaterFlow\<close> on the store and the set \<open>processedPoints\<close>.\<close>

fun flow_walk_st ::
  "nat \<Rightarrow> nat \<Rightarrow> nat \<Rightarrow> nat \<Rightarrow> store \<times> (real \<times> real) set \<Rightarrow> store \<times> (real \<times> real) set" where
  "flow_walk_st 0 topography path currentPoint st = st"
| "flow_walk_st (Suc n) topography path currentPoint st =
     (case st of (h, processedPoints) \<Rightarrow>
        case filter (\<lambda>p. object_key (obj h p) \<notin> processedPoints \<and>
                         \<bar>olat (obj h p) - olat (obj h currentPoint)\<bar> < 2 / 1000 \<and>
                         \<bar>olng (obj h p) - olng (obj h currentPoint)\<bar> < 2 / 1000 \<and>
                         oelevation (obj h p) < oelevation (obj h currentPoint))
                    (elems h topography) of
          [] \<Rightarrow> st
        | first # others \<Rightarrow>
            (let nextPoint =
                   fold (\<lambda>p steepest.
                           if oelevation (obj h currentPoint) - oelevation (obj h p)
                              > oelevation (obj h currentPoint) - oelevation (obj h steepest)
                           then p else steepest) (first # others) first
             in flow_walk_st n topography path nextPoint
                  (array_push path nextPoint h,
                   insert (object_key (obj h nextPoint)) processedPoints)))"

definition flow_from_st ::
  "nat \<Rightarrow> nat \<Rightarrow> nat \<Rightarrow> store \<times> (real \<times> real) set \<Rightarrow> store \<times> (real \<times> real) set" where
  "flow_from_st topography flowPaths startPoint st =
     (case st of (h, processedPoints) \<Rightarrow>
        if object_key (obj h startPoint) \<in> processedPoints then st
        else (case new_array [startPoint] h of
                (path, h1) \<Rightarrow>
                  (case flow_walk_st 20 topography path startPoint
                          (h1, insert (object_key (obj h startPoint)) processedPoints) of
                     (h2, processedPoints') \<Rightarrow>
                       (if length (elems h2 path) > 3 then array_push flowPaths path h2 else h2,
                        processedPoints'))))"

definition calculateWaterFlow_st :: "nat \<Rightarrow> store \<Rightarrow> nat \<times> store" where
  "calculateWaterFlow_st topography h =
     (case new_array [] h of
        (flowPaths, h1) \<Rightarrow>
          (case findHighPoints_st topography 10 h1 of
             (highPoints, h2) \<Rightarrow>
               (flowPaths,
                fst (fold (flow_from_st topography flowPaths) (elems h2 highPoints) (h2, {})))))"

text \<open>A call started in \<open>h\<close> keeps the store below \<open>n\<close>: no address below \<open>n\<close> is
  written, and nothing is deallocated.\<close>

definition keeps :: "nat \<Rightarrow> store \<Rightarrow> store \<Rightarrow> bool" where
  "keeps n h h' =
     (fresh h \<le> fresh h' \<and> (\<forall>x < n. arrays h' x = arrays h x \<and> objects h' x = objects h x))"

text \<open>A store with four samples at the addresses 0 to 3 and the array of them at
  the address 4.\<close>

definition demo_store :: store where
  "demo_store =
     \<lparr>arrays = Map.empty(4 \<mapsto> [0, 1, 2, 3]),
      objects = Map.empty
        (0 \<mapsto> \<lparr>olat = 45 / 10000, olng = 0, oelevation = 6, oslope = None, oaspect = None\<rparr>,
         1 \<mapsto> \<lparr>olat = 30 / 10000, olng = 0, oelevation = 7, oslope = None, oaspect = None\<rparr>,
         2 \<mapsto> \<lparr>olat = 15 / 10000, olng = 0, oelevation = 8, oslope = None, oaspect = None\<rparr>,
         3 \<mapsto> \<lparr>olat = 0, olng = 0, oelevation = 9, oslope = None, oaspect = None\<rparr>),
      fresh = 5\<rparr>"

section \<open>The session: a pending synthesis among the other handlers\<close>

text \<open>
  With a boundary, \<open>autoDesignLayout\<close> only calls \<open>setTimeout\<close>: the callback runs two
  seconds later, on the \<open>elements\<close> and the \<open>marker\<close> of the render in which the button
  was pressed, and ends with \<open>setElements(newElements)\<close>.  The session state holds the
  current element list and marker, and in \<open>pending\<close> the captured ones while a
  callback is waiting (\<open>isDesigning\<close>).  Boundary, topography, elevation samples and
  wind direction are parameters, held fixed over a session.
\<close>

record session =
  elements_now :: "element list"
  marker_now :: "real \<times> real"
  pending :: "(element list \<times> (real \<times> real)) option"

text \<open>The button is disabled without a boundary and while a callback is waiting.\<close>

definition press_auto_design :: "boundary \<Rightarrow> session \<Rightarrow> session" where
  "press_auto_design b s =
     (if b = Null \<or> pending s \<noteq> None then s
      else s\<lparr>pending := Some (elements_now s, marker_now s)\<rparr>)"

text \<open>
  The callback: \<open>setElements(newElements)\<close> overwrites the current list, \<open>setMarker\<close> is
  called only when a house was placed, and \<open>setIsDesigning(false)\<close> ends the wait.
\<close>

definition timer_fires ::
  "(nat \<Rightarrow> real) \<Rightarrow> real \<Rightarrow> boundary \<Rightarrow> topo list \<Rightarrow> sample list \<Rightarrow> real \<Rightarrow> session \<Rightarrow>
   session option" where
  "timer_fires rnd now b topography demData windDirection s =
     (case pending s of
        None \<Rightarrow> Some s
      | Some (elements, marker) \<Rightarrow>
          (case autoDesignLayout rnd now b topography demData marker windDirection elements of
             None \<Rightarrow> None
           | Some (newElements, marker') \<Rightarrow>
               Some \<lparr>elements_now = newElements,
                     marker_now = (if \<not> has_type ''HOUSE'' elements then marker' else marker_now s),
                     pending = None\<rparr>))"

text \<open>The other handlers stay live while a callback is waiting: a map click
  (\<open>setElements(prev => [...prev, newElement])\<close>), a drag
  (\<open>setElements(prev => prev.map(\<dots>))\<close>) and the clear button (\<open>setElements([])\<close>).\<close>

definition map_click ::
  "real \<Rightarrow> string option \<Rightarrow> boundary \<Rightarrow> real \<times> real \<Rightarrow> session \<Rightarrow> session" where
  "map_click now selectedElementType b latlng s =
     (case onMapClick now selectedElementType b latlng (elements_now s, marker_now s) of
        (els, mk) \<Rightarrow> s\<lparr>elements_now := els, marker_now := mk\<rparr>)"

definition element_drag :: "boundary \<Rightarrow> real \<Rightarrow> real \<times> real \<Rightarrow> session \<Rightarrow> session" where
  "element_drag b ident newPosition s =
     s\<lparr>elements_now := onElementDrag b ident newPosition (elements_now s)\<rparr>"

definition clear_elements :: "session \<Rightarrow> session" where
  "clear_elements s = s\<lparr>elements_now := []\<rparr>"

text \<open>Sessions used below: one with no element, one with a water tank.\<close>

definition empty_session :: session where
  "empty_session = \<lparr>elements_now = [], marker_now = (0, 0), pending = None\<rparr>"

definition tank_session :: session where
  "tank_session = \<lparr>elements_now = [tank_at (1 / 2, 1 / 2)], marker_now = (0, 0), pending = None\<rparr>"

section \<open>Verified properties\<close>

subsection \<open>Contours\<close>

lemma contour_loop_emitted:
  "contour_loop d m i l = Some cs \<Longrightarrow> c \<in> set cs \<Longrightarrow>
     10 < length (points c) \<and> (\<forall>p\<in>set (points c). \<bar>elevation p - level c\<bar> < 1 / 2)"
proof (induction d m i l arbitrary: cs rule: contour_loop.induct)
  case (1 d m i l)
  show ?case
  proof (cases "l \<le> m \<and> \<not> i \<le> 0")
    case True
    then obtain rest where rest: "contour_loop d m i (l + i) = Some rest"
      and cs: "cs = (if 10 < length (contourPoints d l)
                     then \<lparr>level = l, points = contourPoints d l\<rparr> # rest else rest)"
      using "1.prems"(1) by (subst (asm) contour_loop.simps) auto
    show ?thesis
    proof (cases "c \<in> set rest")
      case True
      with "1.IH" rest \<open>l \<le> m \<and> \<not> i \<le> 0\<close> show ?thesis by blast
    next
      case False
      with cs "1.prems"(2) have c: "c = \<lparr>level = l, points = contourPoints d l\<rparr>"
        and len: "10 < length (contourPoints d l)"
        by (auto split: if_splits)
      show ?thesis using len by (simp add: c contourPoints_def)
    qed
  next
    case False
    with "1.prems" show ?thesis
      by (subst (asm) contour_loop.simps) (auto split: if_splits)
  qed
qed

lemma contour_loop_returns:
  "0 < i \<Longrightarrow> \<exists>cs. contour_loop d m i l = Some cs"
proof (induction d m i l rule: contour_loop.induct)
  case (1 d m i l)
  show ?case
  proof (cases "l \<le> m")
    case True
    with 1 obtain rest where "contour_loop d m i (l + i) = Some rest" by fastforce
    with True "1.prems" show ?thesis by (subst contour_loop.simps) simp
  next
    case False
    then show ?thesis by (subst contour_loop.simps) simp
  qed
qed

lemma generateContours_returns:
  "0 < interval \<Longrightarrow> \<exists>cs. generateContours demData interval = Some cs"
  using contour_loop_returns [of interval] by (simp add: generateContours_def)

lemma generateContours_contour:
  assumes "generateContours demData interval = Some cs" and "c \<in> set cs"
  shows "10 < length (points c) \<and> (\<forall>p\<in>set (points c). \<bar>elevation p - level c\<bar> < 1 / 2)"
proof (cases "demData = []")
  case True
  with assms show ?thesis by (auto simp: generateContours_def)
next
  case False
  with assms contour_loop_emitted show ?thesis
    by (simp add: generateContours_def)
qed

text \<open>
  C9.  Contour extraction returns for every positive interval, and whenever it
  returns, every contour of the result holds more than 10 points, each with an
  elevation less than 0.5 away from the level of the contour.  (With an interval
  that is not positive the loop of the source does not end once it is entered, so
  nothing is emitted.)
\<close>

theorem generateContours_emitted:
  "(0 < interval \<longrightarrow> generateContours demData interval \<noteq> None) \<and>
   (\<forall>cs c. generateContours demData interval = Some cs \<and> c \<in> set cs \<longrightarrow>
      10 < length (points c) \<and> (\<forall>p\<in>set (points c). \<bar>elevation p - level c\<bar> < 1 / 2))"
  using generateContours_returns [of interval demData] generateContours_contour [of demData interval]
  by auto

theorem generateContours_emitted_witness:
  "(0 :: real) < 2 \<and>
   generateContours contour_demo 2 =
     Some [\<lparr>level = 3, points = replicate 11 \<lparr>lat = 0, lng = 0, elevation = 3\<rparr>\<rparr>] \<and>
   10 < length (points \<lparr>level = 3, points = replicate 11 \<lparr>lat = 0, lng = 0, elevation = 3\<rparr>\<rparr>) \<and>
   \<bar>elevation \<lparr>lat = 0, lng = 0, elevation = 3\<rparr> - 3\<bar> < (1 / 2 :: real)"
proof -
  have ev: "generateContours contour_demo 2 =
      Some [\<lparr>level = 3, points = replicate 11 \<lparr>lat = 0, lng = 0, elevation = 3\<rparr>\<rparr>]"
    unfolding contour_demo_def by code_simp
  show ?thesis
    using generateContours_emitted [of 2 contour_demo] ev by simp
qed

subsection \<open>Interior sampling\<close>

lemma random_point_loop_spec:
  assumes "attempts \<le> 1000"
    and "random_point_loop rnd cs attempts k = (p, warned, k')"
  shows "if warned
         then p = bbox_midpoint cs \<and> k' = k + 2 * (1001 - attempts) \<and>
              (\<forall>i < 1000 - attempts.
                 \<not> pointInPolygon (snd (candidate rnd cs (k + 2 * i)), fst (candidate rnd cs (k + 2 * i))) cs)
         else pointInPolygon (snd p, fst p) cs \<and> k' \<le> k + 2 * (1000 - attempts)"
  using assms
proof (induction rnd cs attempts k rule: random_point_loop.induct)
  case (1 rnd cs attempts k)
  let ?c = "candidate rnd cs k"
  show ?case
  proof (cases "attempts = 1000")
    case True
    with "1.prems"(2) show ?thesis
      by (subst (asm) random_point_loop.simps) auto
  next
    case False
    with "1.prems"(1) have lt: "attempts < 1000" by simp
    show ?thesis
    proof (cases "pointInPolygon (snd ?c, fst ?c) cs")
      case True
      with lt "1.prems"(2) have "p = ?c" "warned = False" "k' = k + 2"
        by (subst (asm) random_point_loop.simps, simp)+
      with True lt show ?thesis by simp
    next
      case notin: False
      with lt "1.prems"(2) have rec: "random_point_loop rnd cs (attempts + 1) (k + 2) = (p, warned, k')"
        by (subst (asm) random_point_loop.simps) simp
      have ih: "if warned
         then p = bbox_midpoint cs \<and> k' = (k + 2) + 2 * (1001 - (attempts + 1)) \<and>
              (\<forall>i < 1000 - (attempts + 1).
                 \<not> pointInPolygon (snd (candidate rnd cs ((k + 2) + 2 * i)), fst (candidate rnd cs ((k + 2) + 2 * i))) cs)
         else pointInPolygon (snd p, fst p) cs \<and> k' \<le> (k + 2) + 2 * (1000 - (attempts + 1))"
        using "1.IH" lt notin rec by simp
      show ?thesis
      proof (cases warned)
        case True
        with ih have mid: "p = bbox_midpoint cs" and k': "k' = (k + 2) + 2 * (1001 - (attempts + 1))"
          and rest: "\<forall>i < 1000 - (attempts + 1).
                 \<not> pointInPolygon (snd (candidate rnd cs ((k + 2) + 2 * i)), fst (candidate rnd cs ((k + 2) + 2 * i))) cs"
          by simp_all
        have "\<not> pointInPolygon (snd (candidate rnd cs (k + 2 * i)), fst (candidate rnd cs (k + 2 * i))) cs"
          if "i < 1000 - attempts" for i
        proof (cases i)
          case 0
          with notin show ?thesis by simp
        next
          case (Suc j)
          with that have "j < 1000 - (attempts + 1)" by simp
          with rest Suc show ?thesis by simp
        qed
        with True mid k' lt show ?thesis by simp
      next
        case False
        with ih have "pointInPolygon (snd p, fst p) cs" and "k' \<le> (k + 2) + 2 * (1000 - (attempts + 1))"
          by simp_all
        with False lt show ?thesis by simp
      qed
    qed
  qed
qed

lemma random_point_loop_fallback:
  assumes "attempts \<le> 1000"
    and "\<forall>i < 1000 - attempts.
           \<not> pointInPolygon (snd (candidate rnd cs (k + 2 * i)), fst (candidate rnd cs (k + 2 * i))) cs"
  shows "random_point_loop rnd cs attempts k = (bbox_midpoint cs, True, k + 2 * (1001 - attempts))"
  using assms
proof (induction rnd cs attempts k rule: random_point_loop.induct)
  case (1 rnd cs attempts k)
  show ?case
  proof (cases "attempts = 1000")
    case True
    then show ?thesis by (subst random_point_loop.simps) simp
  next
    case False
    with "1.prems"(1) have lt: "attempts < 1000" by simp
    let ?c = "candidate rnd cs k"
    from "1.prems"(2) lt have notin: "\<not> pointInPolygon (snd ?c, fst ?c) cs"
      by (metis add.right_neutral mult_zero_right zero_less_diff)
    have "\<forall>i < 1000 - (attempts + 1).
           \<not> pointInPolygon (snd (candidate rnd cs ((k + 2) + 2 * i)), fst (candidate rnd cs ((k + 2) + 2 * i))) cs"
    proof (intro allI impI)
      fix i assume "i < 1000 - (attempts + 1)"
      then have "Suc i < 1000 - attempts" by simp
      with "1.prems"(2) have "\<not> pointInPolygon (snd (candidate rnd cs (k + 2 * Suc i)), fst (candidate rnd cs (k + 2 * Suc i))) cs"
        by blast
      then show "\<not> pointInPolygon (snd (candidate rnd cs ((k + 2) + 2 * i)), fst (candidate rnd cs ((k + 2) + 2 * i))) cs"
        by (simp add: add.commute add.left_commute)
    qed
    with "1.IH" lt notin have "random_point_loop rnd cs (attempts + 1) (k + 2) =
        (bbox_midpoint cs, True, (k + 2) + 2 * (1001 - (attempts + 1)))"
      by simp
    with lt notin show ?thesis by (subst random_point_loop.simps) simp
  qed
qed

text \<open>The bounding box of a ring with at least one vertex is made of the least and
  the greatest longitude and latitude of its vertices.\<close>

lemma math_min_Min: "xs \<noteq> [] \<Longrightarrow> math_min xs = Min (set xs)"
proof (cases xs)
  case (Cons a list)
  show ?thesis unfolding Cons math_min.simps by (rule Min.set_eq_fold [symmetric])
qed simp

lemma math_max_Max: "xs \<noteq> [] \<Longrightarrow> math_max xs = Max (set xs)"
proof (cases xs)
  case (Cons a list)
  show ?thesis unfolding Cons math_max.simps by (rule Max.set_eq_fold [symmetric])
qed simp

lemma bbox_extremes:
  assumes "cs \<noteq> []"
  shows "bbox cs = (Min (fst ` set cs), Max (fst ` set cs), Min (snd ` set cs), Max (snd ` set cs))"
  using assms by (simp add: bbox_def math_min_Min math_max_Max)

lemma bbox_midpoint_extremes:
  assumes "cs \<noteq> []"
  shows "bbox_midpoint cs =
     (Min (snd ` set cs) + (Max (snd ` set cs) - Min (snd ` set cs)) / 2,
      Min (fst ` set cs) + (Max (fst ` set cs) - Min (fst ` set cs)) / 2)"
  by (simp add: bbox_midpoint_def bbox_extremes [OF assms])

text \<open>
  C8.  For every boundary (none, or a ring with at least one vertex) and every
  outcome of the random draws, interior sampling returns: either without the
  warning, and then the point is inside the boundary and at most 1000 attempts
  were made; or with the warning, and then 1001 attempts were drawn, the first
  1000 were all outside, and the point \<open>[lat, lng]\<close> is the midpoint between the
  least and the greatest latitude and between the least and the greatest
  longitude of the vertices of the ring.  Conversely, when the first 1000
  candidates are all outside, the result is that midpoint with the warning.
\<close>

theorem generateRandomPointInBoundary_inside_or_midpoint:
  assumes "b \<noteq> Feature []"
  shows "(\<exists>p warned k'. generateRandomPointInBoundary rnd b k = (p, warned, k') \<and>
            (if warned
             then \<exists>cs. b = Feature cs \<and>
                    p = (Min (snd ` set cs) + (Max (snd ` set cs) - Min (snd ` set cs)) / 2,
                         Min (fst ` set cs) + (Max (fst ` set cs) - Min (fst ` set cs)) / 2) \<and>
                    k' = k + 2 * 1001 \<and>
                    (\<forall>i < 1000. \<not> isPointInBoundary (candidate rnd cs (k + 2 * i)) b)
             else isPointInBoundary p b \<and> k' \<le> k + 2 * 1000)) \<and>
         (\<forall>cs. b = Feature cs \<and> (\<forall>i < 1000. \<not> isPointInBoundary (candidate rnd cs (k + 2 * i)) b) \<longrightarrow>
            generateRandomPointInBoundary rnd b k =
              ((Min (snd ` set cs) + (Max (snd ` set cs) - Min (snd ` set cs)) / 2,
                Min (fst ` set cs) + (Max (fst ` set cs) - Min (fst ` set cs)) / 2),
               True, k + 2 * 1001))"
proof (rule conjI)
  obtain p warned k' where r: "generateRandomPointInBoundary rnd b k = (p, warned, k')"
    by (metis prod_cases3)
  show "\<exists>p warned k'. generateRandomPointInBoundary rnd b k = (p, warned, k') \<and>
            (if warned
             then \<exists>cs. b = Feature cs \<and>
                    p = (Min (snd ` set cs) + (Max (snd ` set cs) - Min (snd ` set cs)) / 2,
                         Min (fst ` set cs) + (Max (fst ` set cs) - Min (fst ` set cs)) / 2) \<and>
                    k' = k + 2 * 1001 \<and>
                    (\<forall>i < 1000. \<not> isPointInBoundary (candidate rnd cs (k + 2 * i)) b)
             else isPointInBoundary p b \<and> k' \<le> k + 2 * 1000)"
  proof (cases b)
    case Null
    with r show ?thesis
      by (auto simp: generateRandomPointInBoundary_def isPointInBoundary_def)
  next
    case (CoordArray cs)
    with r show ?thesis
      by (auto simp: generateRandomPointInBoundary_def isPointInBoundary_def)
  next
    case (Feature cs)
    with assms have ne: "cs \<noteq> []" by simp
    from Feature r have "random_point_loop rnd cs 0 k = (p, warned, k')"
      by (simp add: generateRandomPointInBoundary_def)
    from random_point_loop_spec [OF _ this] Feature r show ?thesis
      by (auto simp: isPointInBoundary_def bbox_midpoint_extremes [OF ne])
  qed
next
  show "\<forall>cs. b = Feature cs \<and> (\<forall>i < 1000. \<not> isPointInBoundary (candidate rnd cs (k + 2 * i)) b) \<longrightarrow>
            generateRandomPointInBoundary rnd b k =
              ((Min (snd ` set cs) + (Max (snd ` set cs) - Min (snd ` set cs)) / 2,
                Min (fst ` set cs) + (Max (fst ` set cs) - Min (fst ` set cs)) / 2),
               True, k + 2 * 1001)"
  proof (intro allI impI)
    fix cs
    assume a: "b = Feature cs \<and> (\<forall>i < 1000. \<not> isPointInBoundary (candidate rnd cs (k + 2 * i)) b)"
    then have bf: "b = Feature cs"
      and out: "\<forall>i < 1000. \<not> isPointInBoundary (candidate rnd cs (k + 2 * i)) (Feature cs)"
      by auto
    from bf assms have ne: "cs \<noteq> []" by auto
    from out have "\<forall>i < 1000 - 0.
        \<not> pointInPolygon (snd (candidate rnd cs (k + 2 * i)), fst (candidate rnd cs (k + 2 * i))) cs"
      by (simp add: isPointInBoundary_def)
    from random_point_loop_fallback [OF _ this] bf show
      "generateRandomPointInBoundary rnd b k =
              ((Min (snd ` set cs) + (Max (snd ` set cs) - Min (snd ` set cs)) / 2,
                Min (fst ` set cs) + (Max (fst ` set cs) - Min (fst ` set cs)) / 2),
               True, k + 2 * 1001)"
      by (simp add: generateRandomPointInBoundary_def bbox_midpoint_extremes [OF ne])
  qed
qed

text \<open>In the unit square the first candidate is taken.  On the slanted ring, whose
  first vertex is neither the least longitude nor the least latitude, every
  candidate is outside and the fallback is \<open>[1, 2]\<close>.\<close>

theorem generateRandomPointInBoundary_inside_or_midpoint_witness:
  "Feature unit_square \<noteq> Feature [] \<and>
   generateRandomPointInBoundary rnd_half (Feature unit_square) 0 = ((1 / 2, 1 / 2), False, 2) \<and>
   isPointInBoundary (1 / 2, 1 / 2) (Feature unit_square) \<and>
   Feature slanted_ring \<noteq> Feature [] \<and>
   generateRandomPointInBoundary rnd_half (Feature slanted_ring) 0 = ((1, 2), True, 2002)"
proof -
  have ne1: "Feature unit_square \<noteq> Feature []" and ne2: "Feature slanted_ring \<noteq> Feature []"
    by (simp_all add: unit_square_def slanted_ring_def)
  have ev: "generateRandomPointInBoundary rnd_half (Feature unit_square) 0 = ((1 / 2, 1 / 2), False, 2)"
    apply (simp add: generateRandomPointInBoundary_def)
    apply (subst random_point_loop.simps)
    apply (simp add: candidate_def bbox_def unit_square_def rnd_half_def pointInPolygon_def
        intersect_def EPSILON_def)
    done
  have inside: "isPointInBoundary (1 / 2, 1 / 2) (Feature unit_square)"
    using generateRandomPointInBoundary_inside_or_midpoint [OF ne1, of rnd_half 0] ev by auto
  have out: "\<forall>i < 1000. \<not> isPointInBoundary (candidate rnd_half slanted_ring (0 + 2 * i))
                           (Feature slanted_ring)"
    by (simp add: isPointInBoundary_def candidate_def bbox_def slanted_ring_def rnd_half_def
        pointInPolygon_def intersect_def EPSILON_def)
  have ext: "Min (snd ` set slanted_ring) = 0" "Max (snd ` set slanted_ring) = 2"
    "Min (fst ` set slanted_ring) = 0" "Max (fst ` set slanted_ring) = 4"
    by (simp_all add: slanted_ring_def)
  have "generateRandomPointInBoundary rnd_half (Feature slanted_ring) 0 = ((1, 2), True, 2002)"
    using generateRandomPointInBoundary_inside_or_midpoint [OF ne2, of rnd_half 0] out
    by (simp add: ext)
  with ne1 ne2 ev inside show ?thesis by simp
qed

subsection \<open>Direct placement and drag\<close>

lemma unit_square_inside: "pointInPolygon (1 / 2, 1 / 2) unit_square"
  by (simp add: pointInPolygon_def unit_square_def intersect_def EPSILON_def)

text \<open>
  C1.  The two checks do not test the target point.  \<open>onMapClick\<close> hands
  \<open>isPointInBoundary\<close> a bare coordinate array, for which it answers true: a
  water tank clicked at \<open>(5, 5)\<close>, outside the unit square, is appended.
  \<open>onElementDrag\<close> hands it \<open>[lng, lat]\<close> where \<open>[lat, lng]\<close> is read: a drag to
  latitude 5, longitude 0.5, outside the rectangle, is applied, and a drag to
  latitude 0.5, longitude 7, inside it, is refused.
\<close>

theorem placement_and_drag_outside_boundary:
  "\<not> pointInPolygon (5, 5) unit_square \<and>
   onMapClick 7 (Some ''WATER_TANK'') (Feature unit_square) (5, 5) ([], (0, 0)) =
     ([\<lparr>etype = ''WATER_TANK'', geom = Position (5, 5), name = Name ''Water Tank'', eid = 7\<rparr>],
      (0, 0)) \<and>
   \<not> pointInPolygon (1 / 2, 5) wide_rectangle \<and>
   onElementDrag (Feature wide_rectangle) 1 (5, 1 / 2) [tank_at (1 / 2, 5)] = [tank_at (5, 1 / 2)] \<and>
   pointInPolygon (7, 1 / 2) wide_rectangle \<and>
   onElementDrag (Feature wide_rectangle) 1 (1 / 2, 7) [tank_at (1 / 2, 5)] = [tank_at (1 / 2, 5)]"
proof -
  have a: "\<not> pointInPolygon (5, 5) unit_square"
    by (simp add: pointInPolygon_def unit_square_def intersect_def EPSILON_def)
  have b: "onMapClick 7 (Some ''WATER_TANK'') (Feature unit_square) (5, 5) ([], (0, 0)) =
     ([\<lparr>etype = ''WATER_TANK'', geom = Position (5, 5), name = Name ''Water Tank'', eid = 7\<rparr>],
      (0, 0))"
    by (simp add: onMapClick_def ELEMENT_TYPES_def isPointInBoundary_def)
  have c: "\<not> pointInPolygon (1 / 2, 5) wide_rectangle"
    by (simp add: pointInPolygon_def wide_rectangle_def intersect_def EPSILON_def)
  have d: "onElementDrag (Feature wide_rectangle) 1 (5, 1 / 2) [tank_at (1 / 2, 5)] = [tank_at (5, 1 / 2)]"
    by (simp add: onElementDrag_def tank_at_def isPointInBoundary_def pointInPolygon_def
        wide_rectangle_def intersect_def EPSILON_def)
  have e: "pointInPolygon (7, 1 / 2) wide_rectangle"
    by (simp add: pointInPolygon_def wide_rectangle_def intersect_def EPSILON_def)
  have f: "onElementDrag (Feature wide_rectangle) 1 (1 / 2, 7) [tank_at (1 / 2, 5)] = [tank_at (1 / 2, 5)]"
    by (simp add: onElementDrag_def tank_at_def isPointInBoundary_def pointInPolygon_def
        wide_rectangle_def intersect_def EPSILON_def)
  from a b c d e f show ?thesis by blast
qed

subsection \<open>Elevation model\<close>

lemma toFixed1_ge:
  assumes "real_of_int n / 10 \<le> x" and "0 \<le> n"
  shows "real_of_int n / 10 \<le> toFixed1 x"
proof -
  have x0: "0 \<le> x" using assms by (smt (verit) divide_nonneg_nonneg of_int_nonneg)
  have "real_of_int n \<le> x * 10 + 1 / 2" using assms(1) by simp
  then have "n \<le> \<lfloor>x * 10 + 1 / 2\<rfloor>" by (simp add: le_floor_iff)
  then have "real_of_int n / 10 \<le> real_of_int \<lfloor>x * 10 + 1 / 2\<rfloor> / 10"
    by (simp add: divide_right_mono)
  with x0 assms(1) show ?thesis by (auto simp: toFixed1_def)
qed

lemma toFixed1_ge_2: "2 \<le> x \<Longrightarrow> 2 \<le> toFixed1 x"
  using toFixed1_ge [of 20 x] by simp

lemma toFixed1_nonneg: "0 \<le> x \<Longrightarrow> 0 \<le> toFixed1 x"
  using toFixed1_ge [of 0 x] by simp

lemma toFixed1_0: "toFixed1 0 = 0"
  by (simp add: toFixed1_def)

text \<open>With a bounding box of zero width, \<open>(pointLng - minLng) / lngRange\<close> is \<open>0 / 0\<close>
  in every cell.\<close>

lemma zero_width_sample:
  assumes "bbox coords = (minLng, maxLng, minLat, maxLat)" and "maxLng = minLng"
  shows "pelevation (dem_boundary_sample rnd coords pts i j) = NaN"
  using assms by (simp add: dem_boundary_sample_def Let_def js_div_def)

lemma concat_map_const:
  "concat (map (\<lambda>i. map (\<lambda>j. c) ys) xs) = replicate (length xs * length ys) c"
  by (induction xs) (simp_all add: map_replicate_const replicate_add)

lemma zero_width_triangle_bbox: "bbox zero_width_triangle = (0, 0, 0, 2 / 1000)"
  by (simp add: bbox_def zero_width_triangle_def)

lemma zero_width_triangle_points: "dem_points zero_width_triangle = 15"
  by (simp add: dem_points_def zero_width_triangle_bbox)

lemma zero_width_plot_bbox:
  "bbox zero_width_plot = (7627 / 100, 7627 / 100, 1085 / 100, 10852 / 1000)"
  by (simp add: bbox_def zero_width_plot_def)

lemma zero_width_plot_points: "dem_points zero_width_plot = 15"
  by (simp add: dem_points_def zero_width_plot_bbox)

text \<open>
  Away from that case the floor holds: with a boundary whose vertices do not all
  share one longitude, and with no boundary at all, every sample has a finite
  elevation of at least 2, whatever the anchor and the random numbers in
  \<open>[0, 1)\<close> are.
\<close>

lemma boundary_sample_floor:
  assumes "bbox coords = (minLng, maxLng, minLat, maxLat)" and "maxLng \<noteq> minLng"
  shows "\<exists>e. pelevation (dem_boundary_sample rnd coords pts i j) = Fin e \<and> 2 \<le> e"
  using assms by (simp add: dem_boundary_sample_def Let_def js_div_def toFixed1_ge_2)

lemma radius_sample_floor:
  assumes "- 15 \<le> i" and "0 \<le> rnd (nat ((i + 15) * 31 + (j + 15)))"
  shows "\<exists>e. pelevation (dem_radius_sample rnd lat0 lng0 radius i j) = Fin e \<and> 2 \<le> e"
proof -
  let ?r = "rnd (nat ((i + 15) * 31 + (j + 15)))"
  let ?s = "sin ((lat0 + real_of_int i * (radius / 15)) * 50)"
  have "- 1 \<le> ?s" by simp
  moreover have "- 15 \<le> real_of_int i" using assms(1) by linarith
  ultimately have "2 \<le> 10 + real_of_int i * (3 / 10) + ?s * 2 + ?r * (1 / 2)"
    using assms(2) by linarith
  then show ?thesis
    by (simp add: dem_radius_sample_def Let_def toFixed1_ge_2)
qed

lemma generateDEM_floor:
  assumes "\<forall>k. 0 \<le> rnd k"
    and "\<forall>coords minLng maxLng minLat maxLat.
           b = Feature coords \<longrightarrow> bbox coords = (minLng, maxLng, minLat, maxLat) \<longrightarrow> maxLng \<noteq> minLng"
    and "p \<in> set (generateDEM rnd lat0 lng0 radius b)"
  shows "\<exists>e. pelevation p = Fin e \<and> 2 \<le> e"
proof (cases b)
  case (Feature coords)
  obtain minLng maxLng minLat maxLat where bb: "bbox coords = (minLng, maxLng, minLat, maxLat)"
    by (metis prod_cases4)
  with assms(2) Feature have "maxLng \<noteq> minLng" by blast
  from boundary_sample_floor [OF bb this] assms(3) Feature show ?thesis
    by (auto simp: generateDEM_def)
next
  case Null
  with assms(1,3) radius_sample_floor show ?thesis
    by (auto simp: generateDEM_def)
next
  case (CoordArray cs)
  with assms(1,3) radius_sample_floor show ?thesis
    by (auto simp: generateDEM_def)
qed

lemma generateDEM_zero_width_not_finite_aux:
  "map pelevation (generateDEM rnd lat0 lng0 radius (Feature zero_width_triangle)) =
     replicate 256 NaN"
proof -
  have "map pelevation (generateDEM rnd lat0 lng0 radius (Feature zero_width_triangle)) =
        concat (map (\<lambda>i. map (\<lambda>j. NaN) [0..<16]) [0..<16])"
    by (simp add: generateDEM_def map_concat comp_def zero_width_triangle_points
        zero_width_sample [OF zero_width_triangle_bbox])
  also have "\<dots> = replicate 256 NaN"
    by (simp add: concat_map_const)
  finally show ?thesis .
qed

text \<open>
  C3.  \<open>generateDEM\<close> does not widen a degenerate bounding box.  For a triangle
  whose three vertices share one longitude, the elevation of each of the 256
  samples is \<open>NaN\<close>, for every anchor and every outcome of the random numbers;
  \<open>getBoundaryApproximateSize\<close> does replace the zero width of the same boundary
  by \<open>0.0001\<close>.
\<close>

theorem generateDEM_zero_width_not_finite:
  "map pelevation (generateDEM rnd lat0 lng0 radius (Feature zero_width_triangle)) =
     replicate 256 NaN \<and>
   \<not> js_finite NaN \<and>
   getBoundaryApproximateSize (Feature zero_width_triangle) = (1 / 10000, 2 / 1000)"
proof -
  have "map pelevation (generateDEM rnd lat0 lng0 radius (Feature zero_width_triangle)) =
        concat (map (\<lambda>i. map (\<lambda>j. NaN) [0..<16]) [0..<16])"
    by (simp add: generateDEM_def map_concat comp_def zero_width_triangle_points
        zero_width_sample [OF zero_width_triangle_bbox])
  also have "\<dots> = replicate 256 NaN"
    by (simp add: concat_map_const)
  finally have a: "map pelevation (generateDEM rnd lat0 lng0 radius (Feature zero_width_triangle)) =
      replicate 256 NaN" .
  have b: "getBoundaryApproximateSize (Feature zero_width_triangle) = (1 / 10000, 2 / 1000)"
    by (simp add: getBoundaryApproximateSize_def zero_width_triangle_bbox)
       (simp add: zero_width_triangle_def)
  from a b show ?thesis by simp
qed

text \<open>
  C4.  On a plot whose vertices share the longitude 76.27, the first sample of the
  elevation model has the elevation \<open>NaN\<close>, which is not \<open>>= 2\<close>: \<open>Math.max(2, NaN)\<close>
  is \<open>NaN\<close>.
\<close>

theorem generateDEM_zero_width_below_floor:
  "generateDEM rnd lat0 lng0 radius (Feature zero_width_plot) \<noteq> [] \<and>
   pelevation (hd (generateDEM rnd lat0 lng0 radius (Feature zero_width_plot))) = NaN \<and>
   \<not> js_ge (pelevation (hd (generateDEM rnd lat0 lng0 radius (Feature zero_width_plot)))) 2"
proof -
  have "[0..<16] = 0 # [1..<16]" by (simp add: upt_rec)
  then have hd: "hd (generateDEM rnd lat0 lng0 radius (Feature zero_width_plot)) =
      dem_boundary_sample rnd zero_width_plot 15 0 0"
    and ne: "generateDEM rnd lat0 lng0 radius (Feature zero_width_plot) \<noteq> []"
    by (simp_all add: generateDEM_def zero_width_plot_points)
  show ?thesis
    by (simp add: hd ne zero_width_sample [OF zero_width_plot_bbox])
qed

subsection \<open>Topographic analysis\<close>

lemma atan2_bounds: "- pi < atan2 y x \<and> atan2 y x \<le> pi"
proof -
  have lo: "- (pi / 2) < arctan (y / x)" and hi: "arctan (y / x) < pi / 2"
    using arctan_lbound [of "y / x"] arctan_ubound [of "y / x"] by blast+
  have p: "0 < pi" by (rule pi_gt_zero)
  consider "0 < x" | "x < 0" "0 \<le> y" | "x < 0" "y < 0" | "x = 0"
    by linarith
  then show ?thesis
  proof cases
    case 1
    have "- pi < arctan (y / x)" and "arctan (y / x) \<le> pi"
      using lo hi p by linarith+
    with 1 show ?thesis by (simp add: atan2_def)
  next
    case 2
    then have "y / x \<le> 0" by (simp add: divide_nonneg_neg)
    then have "arctan (y / x) \<le> 0" by (simp add: arctan_le_zero_iff)
    then have "- pi < arctan (y / x) + pi" and "arctan (y / x) + pi \<le> pi"
      using lo p by linarith+
    with 2 show ?thesis by (simp add: atan2_def)
  next
    case 3
    then have "0 < y / x" by (simp add: divide_neg_neg)
    then have "0 < arctan (y / x)" by (simp add: zero_less_arctan_iff)
    then have "- pi < arctan (y / x) - pi" and "arctan (y / x) - pi \<le> pi"
      using hi p by linarith+
    with 3 show ?thesis by (simp add: atan2_def)
  next
    case 4
    consider "0 < y" | "y < 0" | "y = 0" by linarith
    then show ?thesis
    proof cases
      case 1
      with 4 have "atan2 y x = pi / 2" by (simp add: atan2_def)
      with p show ?thesis by linarith
    next
      case 2
      with 4 have "atan2 y x = - (pi / 2)" by (simp add: atan2_def)
      with p show ?thesis by linarith
    next
      case 3
      with 4 have "atan2 y x = 0" by (simp add: atan2_def)
      with p show ?thesis by linarith
    qed
  qed
qed

lemma topo_aspect_range: "0 \<le> topo_aspect point neighbors \<and> topo_aspect point neighbors < 360"
proof -
  have r: "0 \<le> (if a * 180 / pi < 0 then a * 180 / pi + 360 else a * 180 / pi) \<and>
           (if a * 180 / pi < 0 then a * 180 / pi + 360 else a * 180 / pi) < 360"
    if "- pi < a" "a \<le> pi" for a :: real
  proof -
    have "- 180 < a * 180 / pi" using that(1) pi_gt_zero by (simp add: pos_less_divide_eq)
    moreover have "a * 180 / pi \<le> 180" using that(2) pi_gt_zero by (simp add: pos_divide_le_eq)
    ultimately show ?thesis by auto
  qed
  show ?thesis
    using r [OF atan2_bounds [THEN conjunct1] atan2_bounds [THEN conjunct2]]
    by (auto simp: topo_aspect_def Let_def split: option.splits)
qed

lemma toFixed1_le_360:
  assumes "0 \<le> x" and "x < 360"
  shows "toFixed1 x \<le> 360"
proof -
  have "x * 10 + 1 / 2 < 3601" using assms by simp
  then have "\<lfloor>x * 10 + 1 / 2\<rfloor> < 3601" by (simp add: floor_less_iff)
  then have "real_of_int \<lfloor>x * 10 + 1 / 2\<rfloor> \<le> 3600" by linarith
  then show ?thesis using assms by (simp add: toFixed1_def)
qed


text \<open>
  On finite elevations \<open>calculateTopography\<close> computes \<open>topo_slope\<close> and \<open>topo_aspect\<close>,
  and every emitted sample has a slope that is not negative and an aspect in the
  closed interval from 0 to 360.
\<close>

lemma in_enumerate_member: "(i, p) \<in> set (enumerate n xs) \<Longrightarrow> p \<in> set xs"
  by (auto simp: in_set_enumerate_eq)

lemma dem_neighbors_member: "q \<in> set (dem_neighbors xs i point) \<Longrightarrow> q \<in> set xs"
  by (auto simp: dem_neighbors_def dest: in_enumerate_member)

lemma dem_aspect_no_east:
  assumes "\<forall>q \<in> set neighbors. plng q \<le> plng point"
  shows "dem_aspect point neighbors = Fin 0"
proof -
  have "find (\<lambda>p. plng p > plng point \<and> \<bar>plat p - plat point\<bar> < 1 / 1000) neighbors = None"
    using assms by (auto simp: find_None_iff)
  then show ?thesis by (simp add: dem_aspect_def)
qed

lemma fold_js_add_Fin:
  "fold (\<lambda>e sum. js_add sum e) (map Fin xs) (Fin a) = Fin (fold (\<lambda>e sum. sum + e) xs a)"
  by (induction xs arbitrary: a) simp_all

lemma dem_slope_finite:
  assumes "ns \<noteq> []"
  shows "dem_slope (dem_of p) (map dem_of ns) = Fin (topo_slope p ns)"
proof -
  have m: "map pelevation (map dem_of ns) = map Fin (map elevation ns)"
    by (simp add: dem_of_def comp_def)
  have l: "real (length ns) \<noteq> 0" using assms by simp
  show ?thesis
    unfolding dem_slope_def topo_slope_def Let_def m fold_js_add_Fin
    using l by (simp add: js_div_def js_sub_def dem_of_def)
qed

lemma find_map_comp: "find P (map f xs) = map_option f (find (\<lambda>x. P (f x)) xs)"
  by (induction xs) simp_all

lemma dem_aspect_finite:
  "dem_aspect (dem_of p) (map dem_of ns) = Fin (topo_aspect p ns)"
proof -
  have e: "find (\<lambda>q. plng q > plng (dem_of p) \<and> \<bar>plat q - plat (dem_of p)\<bar> < 1 / 1000) (map dem_of ns) =
      map_option dem_of (find (\<lambda>q. lng q > lng p \<and> \<bar>lat q - lat p\<bar> < 1 / 1000) ns)"
    by (simp add: find_map_comp dem_of_def)
  have n: "find (\<lambda>q. plat q > plat (dem_of p) \<and> \<bar>plng q - plng (dem_of p)\<bar> < 1 / 1000) (map dem_of ns) =
      map_option dem_of (find (\<lambda>q. lat q > lat p \<and> \<bar>lng q - lng p\<bar> < 1 / 1000) ns)"
    by (simp add: find_map_comp dem_of_def)
  show ?thesis
    unfolding dem_aspect_def topo_aspect_def e n
    by (auto simp: Let_def js_sub_def js_div_def dem_of_def split: option.splits)
qed

lemma calculateTopography_range:
  assumes "t \<in> set (calculateTopography (map dem_of demData))"
  shows "\<exists>s a. pslope t = Fin s \<and> 0 \<le> s \<and> paspect t = Fin a \<and> 0 \<le> a \<and> a \<le> 360"
proof -
  let ?s = "sort_key (\<lambda>p. (plat p, plng p)) (map dem_of demData)"
  from assms obtain i point where ip: "(i, point) \<in> set (enumerate 0 ?s)"
    and n3: "3 \<le> length (dem_neighbors ?s i point)"
    and t: "t = \<lparr>plat = plat point, plng = plng point, pelevation = pelevation point,
                  pslope = js_toFixed1 (dem_slope point (dem_neighbors ?s i point)),
                  paspect = js_toFixed1 (dem_aspect point (dem_neighbors ?s i point))\<rparr>"
    by (auto simp: calculateTopography_def Let_def split: if_splits)
  from ip have "point \<in> set ?s" by (rule in_enumerate_member)
  then obtain p where p: "point = dem_of p" by auto
  have "\<forall>q \<in> set (dem_neighbors ?s i point). \<exists>x. q = dem_of x"
    using dem_neighbors_member [of _ ?s i point] by auto
  then have "\<exists>ns. dem_neighbors ?s i point = map dem_of ns"
    by (simp only: ex_map_conv)
  then obtain ns where ns: "dem_neighbors ?s i point = map dem_of ns" ..
  with n3 have ne: "ns \<noteq> []" by auto
  have sl: "pslope t = Fin (toFixed1 (topo_slope p ns))"
    using ns unfolding t p by (simp add: dem_slope_finite [OF ne])
  have asp: "paspect t = Fin (toFixed1 (topo_aspect p ns))"
    using ns unfolding t p by (simp add: dem_aspect_finite)
  have "0 \<le> topo_slope p ns" by (simp add: topo_slope_def Let_def)
  then have "0 \<le> toFixed1 (topo_slope p ns)" by (rule toFixed1_nonneg)
  moreover have "0 \<le> toFixed1 (topo_aspect p ns)"
    using topo_aspect_range by (simp add: toFixed1_nonneg)
  moreover have "toFixed1 (topo_aspect p ns) \<le> 360"
    using topo_aspect_range by (simp add: toFixed1_le_360)
  ultimately show ?thesis using sl asp by simp
qed

text \<open>
  The bound 360 is met only by elevations that \<open>generateDEM\<close> does not produce: a
  bearing of at least 359.95 degrees, here from a neighbour 500 m higher to the
  east and one 0.1 m lower to the north, is rounded to 360.
\<close>

lemma arctan_le_self:
  assumes "0 \<le> x"
  shows "arctan x \<le> x"
proof -
  have "(\<lambda>t. t - arctan t) 0 \<le> (\<lambda>t. t - arctan t) x"
  proof (rule DERIV_nonneg_imp_nondecreasing [OF assms])
    fix t :: real
    have "((\<lambda>t. t - arctan t) has_real_derivative (1 - inverse (1 + t\<^sup>2))) (at t)"
      by (auto intro!: derivative_eq_intros)
    moreover have "0 \<le> 1 - inverse (1 + t\<^sup>2)"
      by (simp add: inverse_le_1_iff) 
    ultimately show "\<exists>y. ((\<lambda>t. t - arctan t) has_real_derivative y) (at t) \<and> 0 \<le> y"
      by blast
  qed
  then show ?thesis by simp
qed

lemma aspect_raw:
  "topo_aspect \<lparr>lat = 0, lng = 0, elevation = 21 / 10\<rparr>
     [\<lparr>lat = 0, lng = 1 / 1000, elevation = 5021 / 10\<rparr>,
      \<lparr>lat = 1 / 1000, lng = 0, elevation = 2\<rparr>,
      \<lparr>lat = 1 / 1000, lng = 1 / 1000, elevation = 21 / 10\<rparr>] = 360 - arctan (1 / 5000) * 180 / pi"
proof -
  have neg: "arctan (- (1 / 5000)) * 180 / pi < 0"
    by (simp add: arctan_minus divide_neg_pos)
  have "((2::real) - 21 / 10) / (5021 / 10 - 21 / 10) = - (1 / 5000)" by simp
  then show ?thesis using neg
    by (simp add: topo_aspect_def atan2_def Let_def arctan_minus)
qed

lemma toFixed1_below_360:
  assumes "0 < d" and "d \<le> 18 / 1000"
  shows "toFixed1 (360 - d) = 360"
proof -
  have "3600 \<le> (360 - d) * 10 + 1 / 2" and "(360 - d) * 10 + 1 / 2 < 3600 + 1"
    using assms by (simp_all add: algebra_simps)
  then have "\<lfloor>(360 - d) * 10 + 1 / 2\<rfloor> = 3600"
    by (subst floor_eq_iff) simp
  moreover have "\<not> 10 ^ 21 \<le> \<bar>360 - d\<bar>" using assms by simp
  moreover have "\<not> 360 - d < 0" using assms by simp
  ultimately show ?thesis by (simp add: toFixed1_def)
qed

lemma aspect_rounds_up: "toFixed1 (360 - arctan (1 / 5000) * 180 / pi) = 360"
proof (rule toFixed1_below_360)
  have pos: "0 < arctan (1 / 5000 :: real)" by (simp add: zero_less_arctan_iff)
  then show "0 < arctan (1 / 5000) * 180 / pi" by simp
  have "arctan (1 / 5000) \<le> (1 / 5000 :: real)" by (rule arctan_le_self) simp
  then have "arctan (1 / 5000) * 180 \<le> (1 / 5000) * 180" by simp
  also have "\<dots> \<le> (18 / 1000) * pi" using pi_ge_two by simp
  finally show "arctan (1 / 5000) * 180 / pi \<le> 18 / 1000" by (simp add: pos_divide_le_eq)
qed

text \<open>What \<open>calculateTopography\<close> emits when all samples are within the window of
  each other, and on the elevation model of a boundary of zero width.\<close>

lemma dem_slope_nan: "pelevation point = NaN \<Longrightarrow> dem_slope point neighbors = NaN"
  by (simp add: dem_slope_def Let_def js_sub_def)

lemma filter_neq_upt: "i < n \<Longrightarrow> length (filter (\<lambda>j. j \<noteq> i) [0..<n]) = n - 1"
proof (induction n)
  case 0
  then show ?case by simp
next
  case (Suc n)
  show ?case
  proof (cases "i = n")
    case True
    have "filter (\<lambda>j. j \<noteq> n) [0..<n] = [0..<n]" by (rule filter_True) simp
    with True show ?thesis by simp
  next
    case False
    with Suc.prems have "i < n" by simp
    with Suc.IH False show ?thesis by simp
  qed
qed

lemma length_other_indices:
  assumes "i < length xs"
  shows "length (filter (\<lambda>(j, p). j \<noteq> i) (enumerate 0 xs)) = length xs - 1"
proof -
  have "length (filter (\<lambda>(j, p). j \<noteq> i) (enumerate 0 xs)) =
        length (map fst (filter ((\<lambda>j. j \<noteq> i) \<circ> fst) (enumerate 0 xs)))"
    by (simp add: comp_def case_prod_unfold)
  also have "\<dots> = length (filter (\<lambda>j. j \<noteq> i) (map fst (enumerate 0 xs)))"
    by (simp only: filter_map)
  also have "\<dots> = length xs - 1"
    using assms by (simp add: filter_neq_upt)
  finally show ?thesis .
qed

lemma dem_neighbors_all:
  assumes close: "\<forall>p \<in> set xs. \<forall>q \<in> set xs.
                    \<bar>plat p - plat q\<bar> < 3 / 1000 \<and> \<bar>plng p - plng q\<bar> < 3 / 1000"
    and ip: "(i, point) \<in> set (enumerate 0 xs)"
  shows "length (dem_neighbors xs i point) = length xs - 1"
proof -
  from ip have i: "i < length xs" and pt: "point \<in> set xs"
    by (auto simp: in_set_enumerate_eq)
  have "filter (\<lambda>(j, p). j \<noteq> i \<and> \<bar>plat p - plat point\<bar> < 3 / 1000 \<and>
                              \<bar>plng p - plng point\<bar> < 3 / 1000) (enumerate 0 xs) =
        filter (\<lambda>(j, p). j \<noteq> i) (enumerate 0 xs)"
    using close pt by (intro filter_cong) (auto simp: in_set_enumerate_eq)
  then show ?thesis
    using length_other_indices [OF i] by (simp add: dem_neighbors_def)
qed

lemma concat_map_singletons:
  "(\<And>x. x \<in> set xs \<Longrightarrow> f x = [g x]) \<Longrightarrow> concat (map f xs) = map g xs"
  by (induction xs) simp_all

lemma calculateTopography_all_close:
  assumes close: "\<forall>p \<in> set demData. \<forall>q \<in> set demData.
                    \<bar>plat p - plat q\<bar> < 3 / 1000 \<and> \<bar>plng p - plng q\<bar> < 3 / 1000"
    and len: "4 \<le> length demData"
  shows "calculateTopography demData =
     map (\<lambda>(i, point).
            \<lparr>plat = plat point, plng = plng point, pelevation = pelevation point,
              pslope = js_toFixed1 (dem_slope point
                         (dem_neighbors (sort_key (\<lambda>p. (plat p, plng p)) demData) i point)),
              paspect = js_toFixed1 (dem_aspect point
                         (dem_neighbors (sort_key (\<lambda>p. (plat p, plng p)) demData) i point))\<rparr>)
         (enumerate 0 (sort_key (\<lambda>p. (plat p, plng p)) demData))"
proof -
  let ?s = "sort_key (\<lambda>p. (plat p, plng p)) demData"
  have close': "\<forall>p \<in> set ?s. \<forall>q \<in> set ?s.
                    \<bar>plat p - plat q\<bar> < 3 / 1000 \<and> \<bar>plng p - plng q\<bar> < 3 / 1000"
    using close by simp
  have n: "3 \<le> length (dem_neighbors ?s i point)" if "(i, point) \<in> set (enumerate 0 ?s)" for i point
    using dem_neighbors_all [OF close' that] len by simp
  show ?thesis
    unfolding calculateTopography_def Let_def
    by (rule concat_map_singletons) (use n in \<open>auto simp: Let_def\<close>)
qed

lemma zero_width_triangle_samples:
  assumes "p \<in> set (generateDEM rnd lat0 lng0 radius (Feature zero_width_triangle))"
  shows "0 \<le> plat p \<and> plat p \<le> 2 / 1000 \<and> plng p = 0 \<and> pelevation p = NaN"
proof -
  from assms obtain i j where i: "i < 16" and
    p: "p = dem_boundary_sample rnd zero_width_triangle 15 i j"
    by (auto simp: generateDEM_def zero_width_triangle_points)
  have "real i / 15 \<le> 1" using i by simp
  then have "real i / 15 * (2 / 1000) \<le> 2 / 1000" by simp
  then show ?thesis
    using zero_width_sample [OF zero_width_triangle_bbox, of rnd 15 i j]
    by (simp add: p dem_boundary_sample_def zero_width_triangle_bbox Let_def)
qed

text \<open>
  C6.  On the triangle whose vertices share one longitude, every elevation that
  \<open>generateDEM\<close> hands to \<open>calculateTopography\<close> is \<open>NaN\<close>.  All 256 samples have
  255 neighbours, so all are emitted, each with the slope \<open>NaN\<close>, which is not
  \<open>>= 0\<close>; no sample has a neighbour to the east, so each aspect is 0.
\<close>

theorem calculateTopography_zero_width_slope:
  "map pslope (calculateTopography (generateDEM rnd lat0 lng0 radius (Feature zero_width_triangle))) =
     replicate 256 NaN \<and>
   \<not> js_ge NaN 0 \<and>
   map paspect (calculateTopography (generateDEM rnd lat0 lng0 radius (Feature zero_width_triangle))) =
     replicate 256 (Fin 0)"
proof -
  let ?d = "generateDEM rnd lat0 lng0 radius (Feature zero_width_triangle)"
  let ?s = "sort_key (\<lambda>p. (plat p, plng p)) ?d"
  have len: "length ?d = 256"
    using generateDEM_zero_width_not_finite_aux [of rnd lat0 lng0 radius]
    by (metis length_map length_replicate)
  have close: "\<forall>p \<in> set ?d. \<forall>q \<in> set ?d.
                 \<bar>plat p - plat q\<bar> < 3 / 1000 \<and> \<bar>plng p - plng q\<bar> < 3 / 1000"
  proof (intro ballI)
    fix p q assume "p \<in> set ?d" "q \<in> set ?d"
    from zero_width_triangle_samples [OF this(1)] zero_width_triangle_samples [OF this(2)]
    have "0 \<le> plat p" "plat p \<le> 2 / 1000" "0 \<le> plat q" "plat q \<le> 2 / 1000"
      and z: "plng p = 0" "plng q = 0"
      by blast+
    then have "\<bar>plat p - plat q\<bar> < 3 / 1000" by linarith
    moreover have "\<bar>plng p - plng q\<bar> < 3 / 1000" by (simp add: z)
    ultimately show "\<bar>plat p - plat q\<bar> < 3 / 1000 \<and> \<bar>plng p - plng q\<bar> < 3 / 1000" by blast
  qed
  have nan: "pelevation point = NaN" if "(i, point) \<in> set (enumerate 0 ?s)" for i point
  proof -
    from that have "point \<in> set ?s" by (rule in_enumerate_member)
    then have "point \<in> set ?d" by simp
    then show ?thesis using zero_width_triangle_samples by blast
  qed
  have east: "dem_aspect point (dem_neighbors ?s i point) = Fin 0"
    if "(i, point) \<in> set (enumerate 0 ?s)" for i point
  proof (rule dem_aspect_no_east, rule ballI)
    fix q assume "q \<in> set (dem_neighbors ?s i point)"
    then have "q \<in> set ?d" using dem_neighbors_member [of q ?s i point] by simp
    then have q: "plng q = 0" by (rule zero_width_triangle_samples [THEN conjunct2, THEN conjunct2, THEN conjunct1])
    from that have "point \<in> set ?d" using in_enumerate_member [of i point 0 ?s] by simp
    then have "plng point = 0" by (rule zero_width_triangle_samples [THEN conjunct2, THEN conjunct2, THEN conjunct1])
    with q show "plng q \<le> plng point" by simp
  qed
  have "map pslope (calculateTopography ?d) = map (\<lambda>ip. NaN) (enumerate 0 ?s)"
    unfolding calculateTopography_all_close [OF close, unfolded len, simplified]
    using nan by (auto simp: dem_slope_nan)
  also have "\<dots> = replicate 256 NaN"
    by (simp add: map_replicate_const len)
  finally have sl: "map pslope (calculateTopography ?d) = replicate 256 NaN" .
  have "map paspect (calculateTopography ?d) = map (\<lambda>ip. Fin 0) (enumerate 0 ?s)"
    unfolding calculateTopography_all_close [OF close, unfolded len, simplified]
    using east by (auto simp: toFixed1_0)
  also have "\<dots> = replicate 256 (Fin 0)"
    by (simp add: map_replicate_const len)
  finally have "map paspect (calculateTopography ?d) = replicate 256 (Fin 0)" .
  with sl show ?thesis by simp
qed

subsection \<open>Water flow\<close>

lemma steepest_neighbor_in:
  "steepest_neighbor cur first ns \<in> set (first # ns)"
  unfolding steepest_neighbor_def
proof (induction ns arbitrary: first)
  case Nil
  show ?case by simp
next
  case (Cons n ns)
  let ?f = "\<lambda>p steepest. if elevation cur - elevation p > elevation cur - elevation steepest
                         then p else steepest"
  have "fold ?f ns (?f n first) \<in> set (?f n first # ns)" by (rule Cons.IH)
  then show ?case by (auto split: if_splits)
qed

lemma flow_neighbors_lower:
  "p \<in> set (flow_neighbors topography processed cur) \<Longrightarrow> elevation p < elevation cur"
  by (simp add: flow_neighbors_def)

lemma flow_walk_decreasing:
  assumes "path \<noteq> []" and "last path = cur"
    and "successively (\<lambda>a b. elevation b < elevation a) path"
    and "flow_walk n topography processed cur path = (path', processed')"
  shows "successively (\<lambda>a b. elevation b < elevation a) path'"
  using assms
proof (induction n arbitrary: processed cur path)
  case 0
  then show ?case by simp
next
  case (Suc n)
  show ?case
  proof (cases "flow_neighbors topography processed cur")
    case Nil
    with Suc.prems show ?thesis by simp
  next
    case (Cons first others)
    let ?next = "steepest_neighbor cur first (first # others)"
    have "?next \<in> set (flow_neighbors topography processed cur)"
      using steepest_neighbor_in [of cur first "first # others"] Cons by auto
    then have lower: "elevation ?next < elevation cur"
      by (rule flow_neighbors_lower)
    have walk: "flow_walk n topography (insert (point_key ?next) processed) ?next (path @ [?next]) =
        (path', processed')"
      using Suc.prems(4) Cons by (simp add: Let_def)
    have "successively (\<lambda>a b. elevation b < elevation a) (path @ [?next])"
      using Suc.prems(1,2,3) lower by (simp add: successively_append_iff)
    from Suc.IH [OF _ _ this walk] show ?thesis by simp
  qed
qed

lemma flow_from_paths:
  assumes "\<forall>path \<in> set (fst st). 3 < length path \<and> successively (\<lambda>a b. elevation b < elevation a) path"
    and "path \<in> set (fst (flow_from topography startPoint st))"
  shows "3 < length path \<and> successively (\<lambda>a b. elevation b < elevation a) path"
proof -
  obtain flowPaths processed where st: "st = (flowPaths, processed)" by (cases st)
  show ?thesis
  proof (cases "point_key startPoint \<in> processed")
    case True
    with assms st show ?thesis by (simp add: flow_from_def)
  next
    case False
    obtain p' proc' where w: "flow_walk 20 topography (insert (point_key startPoint) processed)
        startPoint [startPoint] = (p', proc')" by (cases "flow_walk 20 topography (insert (point_key startPoint) processed)
        startPoint [startPoint]")
    have dec: "successively (\<lambda>a b. elevation b < elevation a) p'"
      by (rule flow_walk_decreasing [OF _ _ _ w]) simp_all
    from assms st False w dec show ?thesis
      by (auto simp: flow_from_def split: if_splits)
  qed
qed

lemma fold_flow_from_paths:
  assumes "\<forall>path \<in> set (fst st). 3 < length path \<and> successively (\<lambda>a b. elevation b < elevation a) path"
  shows "\<forall>path \<in> set (fst (fold (flow_from topography) seeds st)).
           3 < length path \<and> successively (\<lambda>a b. elevation b < elevation a) path"
  using assms
proof (induction seeds arbitrary: st)
  case Nil
  then show ?case by simp
next
  case (Cons s seeds)
  have "\<forall>path \<in> set (fst (flow_from topography s st)).
           3 < length path \<and> successively (\<lambda>a b. elevation b < elevation a) path"
    using flow_from_paths [OF Cons.prems] by blast
  from Cons.IH [OF this] show ?case by simp
qed

text \<open>
  C7.  Every flow path of the result has more than 3 points, and along it each
  point is strictly lower than the one before, hence not higher.
\<close>

theorem calculateWaterFlow_paths:
  assumes "path \<in> set (calculateWaterFlow topography)"
  shows "3 < length path \<and> successively (\<lambda>a b. elevation b < elevation a) path \<and>
         successively (\<lambda>a b. elevation b \<le> elevation a) path"
proof -
  have "\<forall>path \<in> set (fst (fold (flow_from topography) (findHighPoints topography 10) ([], {}))).
           3 < length path \<and> successively (\<lambda>a b. elevation b < elevation a) path"
    by (rule fold_flow_from_paths) simp
  with assms have a: "3 < length path" and b: "successively (\<lambda>a b. elevation b < elevation a) path"
    by (simp_all add: calculateWaterFlow_def)
  from b have "successively (\<lambda>a b. elevation b \<le> elevation a) path"
    by (rule successively_mono) simp_all
  with a b show ?thesis by simp
qed

lemma flow_demo_high: "findHighPoints flow_demo 10 = flow_demo"
  by (simp add: findHighPoints_def flow_demo_def)

lemma flow_demo_eval: "calculateWaterFlow flow_demo = [flow_demo]"
  unfolding calculateWaterFlow_def flow_demo_high
  by (simp add: flow_demo_def flow_from_def point_key_def eval_nat_numeral flow_neighbors_def
      steepest_neighbor_def)

theorem calculateWaterFlow_paths_witness:
  "calculateWaterFlow flow_demo = [flow_demo] \<and> 3 < length flow_demo \<and>
   map elevation flow_demo = [9, 8, 7, 6]"
proof -
  have "flow_demo \<in> set (calculateWaterFlow flow_demo)" by (simp add: flow_demo_eval)
  from calculateWaterFlow_paths [OF this] flow_demo_eval show ?thesis
    by (simp add: flow_demo_def)
qed

subsection \<open>Placement synthesis\<close>

lemma appends_new_refl: "appends_new elements elements"
  by (simp add: appends_new_def)

lemma appends_new_append:
  assumes "appends_new elements newElements"
    and "\<forall>e \<in> set extra. \<not> has_type (etype e) elements \<and> etype e \<in> set synthesized_kinds"
  shows "appends_new elements (newElements @ extra)"
proof -
  from assms(1) obtain added where a: "newElements = elements @ added"
    and n: "\<forall>e \<in> set added. \<not> has_type (etype e) elements \<and> etype e \<in> set synthesized_kinds"
    by (auto simp: appends_new_def)
  have "newElements @ extra = elements @ (added @ extra)" using a by simp
  moreover have "\<forall>e \<in> set (added @ extra).
      \<not> has_type (etype e) elements \<and> etype e \<in> set synthesized_kinds"
    using n assms(2) by auto
  ultimately show ?thesis unfolding appends_new_def by blast
qed

lemma step_house_appends:
  "appends_new elements (fst st) \<Longrightarrow> appends_new elements (fst (step_house rnd now b elements st))"
  by (cases st)
     (auto simp: step_house_def synthesized_kinds_def split: prod.splits intro!: appends_new_append)

lemma step_water_tank_appends:
  "appends_new elements (fst st) \<Longrightarrow>
   appends_new elements (fst (step_water_tank now b topography elements st))"
  by (cases st)
     (auto simp: step_water_tank_def Let_def synthesized_kinds_def split: list.splits
           intro!: appends_new_append)

lemma step_pond_appends:
  "appends_new elements (fst st) \<Longrightarrow>
   appends_new elements (fst (step_pond now b topography size0 elements st))"
  by (cases st)
     (auto simp: step_pond_def Let_def synthesized_kinds_def split: list.splits
           intro!: appends_new_append)

lemma step_offset_appends:
  "kind \<in> set synthesized_kinds \<Longrightarrow> appends_new elements (fst st) \<Longrightarrow>
   appends_new elements (fst (step_offset kind nm offset ident b hpos elements st))"
  by (cases st) (auto simp: step_offset_def Let_def intro!: appends_new_append)

lemma step_swales_appends:
  assumes "appends_new elements (fst st)"
  shows "\<exists>st'. step_swales now b demData elements st = Some st' \<and> appends_new elements (fst st')"
proof -
  obtain contours where c: "generateContours demData 1 = Some contours"
    using generateContours_returns [of 1 demData] by auto
  obtain newElements k where st: "st = (newElements, k)" by (cases st)
  show ?thesis
  proof (cases "has_type ''SWALE'' elements")
    case True
    with assms st show ?thesis by (simp add: step_swales_def)
  next
    case False
    have "appends_new elements (newElements @
        map (\<lambda>(pts, nm, ident). \<lparr>etype = ''SWALE'', geom = Points pts, name = nm, eid = ident\<rparr>)
            (take 3 (swale_lines now b contours)))"
      using assms st False by (intro appends_new_append) (auto simp: synthesized_kinds_def)
    with False st c show ?thesis by (simp add: step_swales_def)
  qed
qed

lemma step_windbreak_appends:
  "appends_new elements (fst st) \<Longrightarrow>
   appends_new elements (fst (step_windbreak rnd now b diag wind elements st))"
  by (cases st)
     (auto simp: step_windbreak_def Let_def synthesized_kinds_def split: prod.splits
           intro!: appends_new_append)

lemma step_zone_appends:
  "fst area \<in> set synthesized_kinds \<Longrightarrow> appends_new elements (fst st) \<Longrightarrow>
   appends_new elements (fst (step_zone rnd now b elements area st))"
  by (cases st) (auto simp: step_zone_def split: prod.splits intro!: appends_new_append)

lemma fold_step_zone_appends:
  "\<forall>area \<in> set areas. fst area \<in> set synthesized_kinds \<Longrightarrow> appends_new elements (fst st) \<Longrightarrow>
   appends_new elements (fst (fold (step_zone rnd now b elements) areas st))"
  by (induction areas arbitrary: st) (simp_all add: step_zone_appends)

text \<open>
  The list that the callback writes is the list of the render in which the button
  was pressed, followed by new elements, and none of the new elements has a kind
  that this list holds, or a kind other than the twelve that the synthesis places.
\<close>

lemma autoDesignLayout_appends:
  "\<exists>added marker'.
     autoDesignLayout rnd now b topography demData marker windDirection elements =
       Some (elements @ added, marker') \<and>
     (\<forall>e \<in> set added. \<not> has_type (etype e) elements \<and> etype e \<in> set synthesized_kinds)"
proof (cases "b = Null")
  case True
  then have "autoDesignLayout rnd now b topography demData marker windDirection elements =
      Some (elements @ [], marker)"
    by (simp add: autoDesignLayout_def)
  then show ?thesis by (metis empty_iff list.set(1))
next
  case False
  define boundarySize where "boundarySize = getBoundaryApproximateSize b"
  define boundaryDiagonal where "boundaryDiagonal =
    sqrt (fst boundarySize * fst boundarySize + snd boundarySize * snd boundarySize)"
  define baseElementSize where "baseElementSize = boundaryDiagonal * (1 / 10)"
  define hpos where "hpos = housePos elements marker"
  define st1 where "st1 = step_house rnd now b elements (elements, 0)"
  define st2 where "st2 = step_water_tank now b topography elements st1"
  define st3 where "st3 = step_pond now b topography baseElementSize elements st2"
  define st4 where "st4 = step_offset ''COMPOST'' ''Compost'' (3 / 10000, 2 / 10000) (now + 3) b hpos elements st3"
  define st5 where "st5 = step_offset ''CHICKEN_COOP'' ''Chicken Coop'' (5 / 10000, 4 / 10000) (now + 4) b hpos
                    elements st4"
  define st6 where "st6 = step_offset ''BEEHIVE'' ''Beehive'' (4 / 10000, - (3 / 10000)) (now + 5) b hpos
                    elements st5"
  define st7 where "st7 = step_offset ''SHED'' ''Tool Shed'' (1 / 10000, 2 / 10000) (now + 6) b hpos elements st6"
  have "appends_new elements (fst st1)"
    unfolding st1_def by (rule step_house_appends) (simp add: appends_new_refl)
  then have "appends_new elements (fst st2)"
    unfolding st2_def by (rule step_water_tank_appends)
  then have "appends_new elements (fst st3)"
    unfolding st3_def by (rule step_pond_appends)
  then have "appends_new elements (fst st4)"
    unfolding st4_def by (intro step_offset_appends) (simp_all add: synthesized_kinds_def)
  then have "appends_new elements (fst st5)"
    unfolding st5_def by (intro step_offset_appends) (simp_all add: synthesized_kinds_def)
  then have "appends_new elements (fst st6)"
    unfolding st6_def by (intro step_offset_appends) (simp_all add: synthesized_kinds_def)
  then have "appends_new elements (fst st7)"
    unfolding st7_def by (intro step_offset_appends) (simp_all add: synthesized_kinds_def)
  then obtain st8 where s8: "step_swales now b demData elements st7 = Some st8"
    and a8: "appends_new elements (fst st8)"
    using step_swales_appends by blast
  define st9 where "st9 = step_windbreak rnd now b boundaryDiagonal windDirection elements st8"
  define st10 where "st10 = fold (step_zone rnd now b elements) (zoneAreas baseElementSize) st9"
  have "appends_new elements (fst st9)"
    unfolding st9_def using a8 by (rule step_windbreak_appends)
  then have a10: "appends_new elements (fst st10)"
    unfolding st10_def
    by (intro fold_step_zone_appends) (simp_all add: zoneAreas_def synthesized_kinds_def)
  have "autoDesignLayout rnd now b topography demData marker windDirection elements =
      Some (fst st10, marker_after rnd b elements marker)"
    using False s8
    by (simp add: autoDesignLayout_def Let_def st10_def st9_def st7_def st6_def st5_def st4_def
        st3_def st2_def st1_def hpos_def baseElementSize_def boundaryDiagonal_def boundarySize_def)
  with a10 show ?thesis unfolding appends_new_def by auto
qed

lemma step_house_tanks:
  "filter is_tank (fst (step_house rnd now b elements st)) = filter is_tank (fst st)"
  by (cases st) (simp add: step_house_def is_tank_def split: prod.splits)

lemma step_pond_tanks:
  "filter is_tank (fst (step_pond now b topography size0 elements st)) = filter is_tank (fst st)"
  by (cases st) (simp add: step_pond_def is_tank_def Let_def split: list.splits)

lemma step_offset_tanks:
  "kind \<noteq> ''WATER_TANK'' \<Longrightarrow>
   filter is_tank (fst (step_offset kind nm offset ident b hpos elements st)) = filter is_tank (fst st)"
  by (cases st) (simp add: step_offset_def is_tank_def Let_def)

lemma step_swales_tanks:
  "step_swales now b demData elements st = Some st' \<Longrightarrow>
   filter is_tank (fst st') = filter is_tank (fst st)"
  by (cases st)
     (auto simp: step_swales_def is_tank_def filter_empty_conv split: if_splits option.splits)

lemma step_swales_returns:
  "\<exists>st'. step_swales now b demData elements st = Some st'"
  using generateContours_returns [of 1 demData]
  by (cases st; cases "has_type ''SWALE'' elements") (auto simp: step_swales_def)

lemma step_windbreak_tanks:
  "filter is_tank (fst (step_windbreak rnd now b diag wind elements st)) = filter is_tank (fst st)"
  by (cases st) (simp add: step_windbreak_def is_tank_def Let_def split: prod.splits)

lemma step_zone_tanks:
  "fst area \<noteq> ''WATER_TANK'' \<Longrightarrow>
   filter is_tank (fst (step_zone rnd now b elements area st)) = filter is_tank (fst st)"
  by (cases st) (simp add: step_zone_def is_tank_def split: prod.splits)

lemma fold_step_zone_tanks:
  "\<forall>area \<in> set areas. fst area \<noteq> ''WATER_TANK'' \<Longrightarrow>
   filter is_tank (fst (fold (step_zone rnd now b elements) areas st)) = filter is_tank (fst st)"
  by (induction areas arbitrary: st) (simp_all add: step_zone_tanks)

lemma step_water_tank_tanks:
  "filter is_tank (fst (step_water_tank now b topography elements st)) =
     filter is_tank (fst st) @
     (case filterPointsInBoundary (findHighPoints topography 20) b of
        [] \<Rightarrow> []
      | first # others \<Rightarrow>
          if has_type ''WATER_TANK'' elements then []
          else [\<lparr>etype = ''WATER_TANK'',
                 geom = Position (lat (highest_of first (first # others)),
                                  lng (highest_of first (first # others))),
                 name = Name ''Water Tank'', eid = now + 1\<rparr>])"
  by (cases st) (simp add: step_water_tank_def is_tank_def Let_def split: list.splits)

lemma autoDesignLayout_tanks:
  assumes "b \<noteq> Null"
  shows "\<exists>els marker'.
     autoDesignLayout rnd now b topography demData marker windDirection elements = Some (els, marker') \<and>
     filter is_tank els =
       filter is_tank elements @
       (case filterPointsInBoundary (findHighPoints topography 20) b of
          [] \<Rightarrow> []
        | first # others \<Rightarrow>
            if has_type ''WATER_TANK'' elements then []
            else [\<lparr>etype = ''WATER_TANK'',
                   geom = Position (lat (highest_of first (first # others)),
                                    lng (highest_of first (first # others))),
                   name = Name ''Water Tank'', eid = now + 1\<rparr>])"
proof -
  define boundarySize where "boundarySize = getBoundaryApproximateSize b"
  define boundaryDiagonal where "boundaryDiagonal =
    sqrt (fst boundarySize * fst boundarySize + snd boundarySize * snd boundarySize)"
  define baseElementSize where "baseElementSize = boundaryDiagonal * (1 / 10)"
  define hpos where "hpos = housePos elements marker"
  define st1 where "st1 = step_house rnd now b elements (elements, 0)"
  define st2 where "st2 = step_water_tank now b topography elements st1"
  define st3 where "st3 = step_pond now b topography baseElementSize elements st2"
  define st4 where "st4 = step_offset ''COMPOST'' ''Compost'' (3 / 10000, 2 / 10000) (now + 3) b hpos elements st3"
  define st5 where "st5 = step_offset ''CHICKEN_COOP'' ''Chicken Coop'' (5 / 10000, 4 / 10000) (now + 4) b hpos
                    elements st4"
  define st6 where "st6 = step_offset ''BEEHIVE'' ''Beehive'' (4 / 10000, - (3 / 10000)) (now + 5) b hpos
                    elements st5"
  define st7 where "st7 = step_offset ''SHED'' ''Tool Shed'' (1 / 10000, 2 / 10000) (now + 6) b hpos elements st6"
  obtain st8 where s8: "step_swales now b demData elements st7 = Some st8"
    using step_swales_returns by blast
  define st9 where "st9 = step_windbreak rnd now b boundaryDiagonal windDirection elements st8"
  define st10 where "st10 = fold (step_zone rnd now b elements) (zoneAreas baseElementSize) st9"
  have r: "autoDesignLayout rnd now b topography demData marker windDirection elements =
      Some (fst st10, marker_after rnd b elements marker)"
    using assms s8
    by (simp add: autoDesignLayout_def Let_def st10_def st9_def st7_def st6_def st5_def st4_def
        st3_def st2_def st1_def hpos_def baseElementSize_def boundaryDiagonal_def boundarySize_def)
  have "filter is_tank (fst st10) = filter is_tank (fst st9)"
    unfolding st10_def by (rule fold_step_zone_tanks) (simp add: zoneAreas_def)
  also have "\<dots> = filter is_tank (fst st8)"
    unfolding st9_def by (rule step_windbreak_tanks)
  also have "\<dots> = filter is_tank (fst st7)"
    using s8 by (rule step_swales_tanks)
  also have "\<dots> = filter is_tank (fst st6)"
    unfolding st7_def by (rule step_offset_tanks) simp
  also have "\<dots> = filter is_tank (fst st5)"
    unfolding st6_def by (rule step_offset_tanks) simp
  also have "\<dots> = filter is_tank (fst st4)"
    unfolding st5_def by (rule step_offset_tanks) simp
  also have "\<dots> = filter is_tank (fst st3)"
    unfolding st4_def by (rule step_offset_tanks) simp
  also have "\<dots> = filter is_tank (fst st2)"
    unfolding st3_def by (rule step_pond_tanks)
  finally have "filter is_tank (fst st10) = filter is_tank (fst st2)" .
  moreover have "filter is_tank (fst st1) = filter is_tank elements"
    unfolding st1_def by (simp add: step_house_tanks)
  ultimately show ?thesis
    using r unfolding st2_def by (simp add: step_water_tank_tanks)
qed

lemma highest_of_fold:
  "fold (\<lambda>point highest. if elevation point > elevation highest then point else highest) xs acc
     \<in> set (acc # xs) \<and>
   (\<forall>p \<in> set (acc # xs).
      elevation p \<le> elevation (fold (\<lambda>point highest. if elevation point > elevation highest
                                                     then point else highest) xs acc))"
proof (induction xs arbitrary: acc)
  case Nil
  show ?case by simp
next
  case (Cons x xs)
  let ?f = "\<lambda>point highest. if elevation point > elevation highest then point else highest"
  from Cons.IH [of "?f x acc"] show ?case
    by (auto split: if_splits)
qed

lemma highest_of_max:
  "highest_of first (first # others) \<in> set (first # others) \<and>
   (\<forall>p \<in> set (first # others). elevation p \<le> elevation (highest_of first (first # others)))"
  using highest_of_fold [of "first # others" first] by (auto simp: highest_of_def)

lemma filterPointsInBoundary_filter:
  "filterPointsInBoundary pts b = filter (in_boundary b) pts"
  by (cases b) (simp_all add: filterPointsInBoundary_def in_boundary_def [abs_def])

lemma top_candidates_dominate:
  assumes h: "h \<in> set (filterPointsInBoundary (findHighPoints topography n) b)"
    and hmax: "\<forall>p \<in> set (filterPointsInBoundary (findHighPoints topography n) b). elevation p \<le> elevation h"
    and p: "p \<in> set (filterPointsInBoundary topography b)"
  shows "elevation p \<le> elevation h"
proof -
  let ?s = "sort_key (\<lambda>p. - elevation p) topography"
  have pin: "in_boundary b p" and "p \<in> set ?s"
    using p by (simp_all add: filterPointsInBoundary_filter)
  then have "p \<in> set (take n ?s) \<or> p \<in> set (drop n ?s)"
    by (metis Un_iff append_take_drop_id set_append)
  then show ?thesis
  proof
    assume "p \<in> set (take n ?s)"
    with pin hmax show ?thesis
      by (simp add: filterPointsInBoundary_filter findHighPoints_def)
  next
    assume pd: "p \<in> set (drop n ?s)"
    have "sorted (map (\<lambda>p. - elevation p) (take n ?s @ drop n ?s))"
      by simp
    then have "\<forall>x \<in> set (take n ?s). \<forall>y \<in> set (drop n ?s). - elevation x \<le> - elevation y"
      unfolding map_append sorted_append by auto
    moreover have "h \<in> set (take n ?s)"
      using h by (simp add: filterPointsInBoundary_filter findHighPoints_def)
    ultimately show ?thesis using pd by auto
  qed
qed

text \<open>
  C2, as the code has it.  With a boundary and no Water Tank among the existing
  elements: when at least one of the 20 highest topography samples is inside the
  boundary, the result holds exactly one Water Tank, at the coordinate of a sample
  that is inside the boundary and at least as high as every topography sample
  inside the boundary; when none of the 20 highest samples is inside, the result
  holds no Water Tank.
\<close>

theorem autoDesignLayout_water_tank:
  assumes "b \<noteq> Null" and "\<not> has_type ''WATER_TANK'' elements"
  shows "\<exists>els marker'.
     autoDesignLayout rnd now b topography demData marker windDirection elements = Some (els, marker') \<and>
     (if filterPointsInBoundary (findHighPoints topography 20) b = []
      then count_type ''WATER_TANK'' els = 0
      else \<exists>h \<in> set (filterPointsInBoundary topography b).
             (\<forall>p \<in> set (filterPointsInBoundary topography b). elevation p \<le> elevation h) \<and>
             filter is_tank els =
               [\<lparr>etype = ''WATER_TANK'', geom = Position (lat h, lng h),
                 name = Name ''Water Tank'', eid = now + 1\<rparr>])"
proof -
  have none: "filter is_tank elements = []"
    using assms(2) by (auto simp: has_type_def is_tank_def filter_empty_conv list_ex_iff)
  obtain els marker' where r:
    "autoDesignLayout rnd now b topography demData marker windDirection elements = Some (els, marker')"
    and t: "filter is_tank els =
       filter is_tank elements @
       (case filterPointsInBoundary (findHighPoints topography 20) b of
          [] \<Rightarrow> []
        | first # others \<Rightarrow>
            if has_type ''WATER_TANK'' elements then []
            else [\<lparr>etype = ''WATER_TANK'',
                   geom = Position (lat (highest_of first (first # others)),
                                    lng (highest_of first (first # others))),
                   name = Name ''Water Tank'', eid = now + 1\<rparr>])"
    using autoDesignLayout_tanks [OF assms(1)] by blast
  have cnt: "count_type ''WATER_TANK'' els = length (filter is_tank els)"
    by (simp add: count_type_def is_tank_def [abs_def])
  show ?thesis
  proof (cases "filterPointsInBoundary (findHighPoints topography 20) b")
    case Nil
    with r t none cnt show ?thesis by simp
  next
    case (Cons first others)
    let ?h = "highest_of first (first # others)"
    have hin: "?h \<in> set (filterPointsInBoundary (findHighPoints topography 20) b)"
      and hmax: "\<forall>p \<in> set (filterPointsInBoundary (findHighPoints topography 20) b).
                   elevation p \<le> elevation ?h"
      using highest_of_max [of first others] Cons by simp_all
    have "?h \<in> set (filterPointsInBoundary topography b)"
      using hin by (auto simp: filterPointsInBoundary_filter findHighPoints_def dest: in_set_takeD)
    moreover have "\<forall>p \<in> set (filterPointsInBoundary topography b). elevation p \<le> elevation ?h"
      using top_candidates_dominate [OF hin hmax] by blast
    moreover have "filter is_tank els =
        [\<lparr>etype = ''WATER_TANK'', geom = Position (lat ?h, lng ?h),
          name = Name ''Water Tank'', eid = now + 1\<rparr>]"
      using t none Cons assms(2) by simp
    ultimately show ?thesis using r Cons by auto
  qed
qed

lemma unit_square_outside_high: "\<not> pointInPolygon (3, 1 / 2) unit_square"
  by (simp add: pointInPolygon_def unit_square_def intersect_def EPSILON_def)

lemma unit_square_inside_top: "pointInPolygon (1 / 4, 1 / 4) unit_square"
  by (simp add: pointInPolygon_def unit_square_def intersect_def EPSILON_def)

lemma tank_counter_demo_high: "findHighPoints tank_counter_demo 20 = replicate 20 outside_high"
  unfolding findHighPoints_def tank_counter_demo_def outside_high_def inside_low_def
  by code_simp

text \<open>
  C2 as stated fails: with twenty samples at 10 m east of the unit square and one
  sample at 5 m inside it, there is an interior sample and no Water Tank, and
  synthesis places none.
\<close>

theorem water_tank_not_placed:
  "filterPointsInBoundary tank_counter_demo (Feature unit_square) = [inside_low] \<and>
   \<not> has_type ''WATER_TANK'' [] \<and>
   map_option (count_type ''WATER_TANK'' \<circ> fst)
     (autoDesignLayout rnd_half 0 (Feature unit_square) tank_counter_demo [] (0, 0) 225 []) = Some 0"
proof -
  have a: "filterPointsInBoundary tank_counter_demo (Feature unit_square) = [inside_low]"
    by (simp add: filterPointsInBoundary_def tank_counter_demo_def outside_high_def inside_low_def
        unit_square_outside_high unit_square_inside)
  have b: "filterPointsInBoundary (findHighPoints tank_counter_demo 20) (Feature unit_square) = []"
    by (simp add: tank_counter_demo_high filterPointsInBoundary_def outside_high_def
        unit_square_outside_high)
  have c: "\<not> has_type ''WATER_TANK'' []" by (simp add: has_type_def)
  obtain els marker' where r:
    "autoDesignLayout rnd_half 0 (Feature unit_square) tank_counter_demo [] (0, 0) 225 [] =
       Some (els, marker')"
    and t: "filter is_tank els = []"
    using autoDesignLayout_tanks [of "Feature unit_square" rnd_half 0 tank_counter_demo "[]" "(0, 0)" 225 "[]"] b
    by auto
  have "count_type ''WATER_TANK'' els = 0"
    using t by (simp add: count_type_def is_tank_def [abs_def])
  with a c r show ?thesis by simp
qed

theorem autoDesignLayout_water_tank_witness:
  "Feature unit_square \<noteq> Null \<and> \<not> has_type ''WATER_TANK'' [] \<and>
   map_option (map geom \<circ> filter is_tank \<circ> fst)
     (autoDesignLayout rnd_half 0 (Feature unit_square) tank_demo [] (0, 0) 225 []) =
   Some [Position (1 / 4, 1 / 4)]"
proof -
  have nn: "Feature unit_square \<noteq> Null" by simp
  have c: "\<not> has_type ''WATER_TANK'' []" by (simp add: has_type_def)
  have high: "findHighPoints tank_demo 20 = [outside_high, inside_top, inside_low]"
    by (simp add: findHighPoints_def tank_demo_def outside_high_def inside_low_def inside_top_def)
  have cand: "filterPointsInBoundary (findHighPoints tank_demo 20) (Feature unit_square) \<noteq> []"
    by (simp add: high filterPointsInBoundary_def outside_high_def inside_low_def inside_top_def
        unit_square_outside_high unit_square_inside unit_square_inside_top)
  have interior: "filterPointsInBoundary tank_demo (Feature unit_square) = [inside_low, inside_top]"
    by (simp add: tank_demo_def filterPointsInBoundary_def outside_high_def inside_low_def inside_top_def
        unit_square_outside_high unit_square_inside unit_square_inside_top)
  obtain els marker' h where r:
    "autoDesignLayout rnd_half 0 (Feature unit_square) tank_demo [] (0, 0) 225 [] = Some (els, marker')"
    and h: "h \<in> set [inside_low, inside_top]"
    and hmax: "\<forall>p \<in> set [inside_low, inside_top]. elevation p \<le> elevation h"
    and t: "filter is_tank els =
               [\<lparr>etype = ''WATER_TANK'', geom = Position (lat h, lng h),
                 name = Name ''Water Tank'', eid = 0 + 1\<rparr>]"
    using autoDesignLayout_water_tank [OF nn c, of rnd_half 0 tank_demo "[]" "(0, 0)" 225] cand interior
    by auto
  from h hmax have "h = inside_top"
    by (auto simp: inside_low_def inside_top_def)
  with t have "map geom (filter is_tank els) = [Position (1 / 4, 1 / 4)]"
    by (simp add: inside_top_def)
  with nn c r show ?thesis by simp
qed

subsection \<open>The inputs of the terrain functions are not written\<close>

lemma keeps_refl: "keeps n h h"
  by (simp add: keeps_def)

lemma keeps_trans: "keeps n h1 h2 \<Longrightarrow> keeps n h2 h3 \<Longrightarrow> keeps n h1 h3"
  by (auto simp: keeps_def)

lemma keeps_fresh: "keeps n h h' \<Longrightarrow> m \<le> fresh h \<Longrightarrow> m \<le> fresh h'"
  by (simp add: keeps_def)

lemma new_array_keeps:
  "n \<le> fresh h \<Longrightarrow> new_array refs h = (a, h') \<Longrightarrow> keeps n h h' \<and> n \<le> a"
  by (auto simp: new_array_def keeps_def)

lemma new_object_keeps:
  "n \<le> fresh h \<Longrightarrow> new_object ob h = (a, h') \<Longrightarrow> keeps n h h' \<and> n \<le> a"
  by (auto simp: new_object_def keeps_def)

lemma array_sort_keeps: "n \<le> a \<Longrightarrow> keeps n h (array_sort key a h)"
  by (auto simp: array_sort_def keeps_def)

lemma array_push_keeps: "n \<le> a \<Longrightarrow> keeps n h (array_push a r h)"
  by (auto simp: array_push_def keeps_def)

lemma findHighPoints_st_keeps:
  assumes "n \<le> fresh h"
  shows "keeps n h (snd (findHighPoints_st topography c h))"
proof -
  obtain copy h1 where c: "new_array (elems h topography) h = (copy, h1)" by (cases "new_array (elems h topography) h")
  let ?h2 = "array_sort (\<lambda>ob. - oelevation ob) copy h1"
  obtain res h3 where r: "new_array (take c (elems ?h2 copy)) ?h2 = (res, h3)"
    by (cases "new_array (take c (elems ?h2 copy)) ?h2")
  from new_array_keeps [OF assms c] have k1: "keeps n h h1" and nc: "n \<le> copy" by simp_all
  have k2: "keeps n h1 ?h2" using nc by (rule array_sort_keeps)
  have "n \<le> fresh ?h2" using k1 k2 assms by (meson keeps_fresh)
  from new_array_keeps [OF this r] have k3: "keeps n ?h2 h3" by simp
  have "snd (findHighPoints_st topography c h) = h3"
    using c r by (simp add: findHighPoints_st_def Let_def)
  with k1 k2 k3 show ?thesis by (metis keeps_trans)
qed

lemma findLowPoints_st_keeps:
  assumes "n \<le> fresh h"
  shows "keeps n h (snd (findLowPoints_st topography c h))"
proof -
  obtain copy h1 where c: "new_array (elems h topography) h = (copy, h1)" by (cases "new_array (elems h topography) h")
  let ?h2 = "array_sort (\<lambda>ob. oelevation ob) copy h1"
  obtain res h3 where r: "new_array (take c (elems ?h2 copy)) ?h2 = (res, h3)"
    by (cases "new_array (take c (elems ?h2 copy)) ?h2")
  from new_array_keeps [OF assms c] have k1: "keeps n h h1" and nc: "n \<le> copy" by simp_all
  have k2: "keeps n h1 ?h2" using nc by (rule array_sort_keeps)
  have "n \<le> fresh ?h2" using k1 k2 assms by (meson keeps_fresh)
  from new_array_keeps [OF this r] have k3: "keeps n ?h2 h3" by simp
  have "snd (findLowPoints_st topography c h) = h3"
    using c r by (simp add: findLowPoints_st_def Let_def)
  with k1 k2 k3 show ?thesis by (metis keeps_trans)
qed

lemma topography_round_keeps:
  assumes "n \<le> topography" and "n \<le> fresh h"
  shows "keeps n h (topography_round sortedData topography i h)"
proof -
  have "keeps n h (array_push topography entry h')" if "new_object ob h = (entry, h')" for ob entry h'
    using new_object_keeps [OF assms(2) that] array_push_keeps [OF assms(1)]
    by (meson keeps_trans)
  then show ?thesis
    by (auto simp: topography_round_def Let_def keeps_refl split: prod.splits)
qed

lemma fold_topography_round_keeps:
  assumes "n \<le> topography" and "n \<le> fresh h"
  shows "keeps n h (fold (topography_round sortedData topography) is h)"
  using assms(2)
proof (induction "is" arbitrary: h)
  case Nil
  show ?case by (simp add: keeps_refl)
next
  case (Cons i "is")
  have k: "keeps n h (topography_round sortedData topography i h)"
    using assms(1) Cons.prems by (rule topography_round_keeps)
  then have "n \<le> fresh (topography_round sortedData topography i h)"
    using Cons.prems by (rule keeps_fresh)
  from Cons.IH [OF this] k show ?case by (auto intro: keeps_trans)
qed

lemma calculateTopography_st_keeps:
  assumes "n \<le> fresh h"
  shows "keeps n h (snd (calculateTopography_st demData h))"
proof -
  obtain topography h1 where t: "new_array [] h = (topography, h1)" by (cases "new_array [] h")
  obtain sortedData h2 where s: "new_array (elems h1 demData) h1 = (sortedData, h2)"
    by (cases "new_array (elems h1 demData) h1")
  let ?h3 = "array_sort (\<lambda>ob. (olat ob, olng ob)) sortedData h2"
  from new_array_keeps [OF assms t] have k1: "keeps n h h1" and nt: "n \<le> topography" by simp_all
  have f1: "n \<le> fresh h1" using k1 assms by (rule keeps_fresh)
  from new_array_keeps [OF f1 s] have k2: "keeps n h1 h2" and ns: "n \<le> sortedData" by simp_all
  have k3: "keeps n h2 ?h3" using ns by (rule array_sort_keeps)
  have f3: "n \<le> fresh ?h3" using k2 k3 f1 by (meson keeps_fresh)
  have k4: "keeps n ?h3 (fold (topography_round sortedData topography)
      [0..<length (elems ?h3 sortedData)] ?h3)"
    using nt f3 by (rule fold_topography_round_keeps)
  have "snd (calculateTopography_st demData h) =
      fold (topography_round sortedData topography) [0..<length (elems ?h3 sortedData)] ?h3"
    using t s by (simp add: calculateTopography_st_def Let_def)
  with k1 k2 k3 k4 show ?thesis by (metis keeps_trans)
qed

lemma flow_walk_st_keeps:
  assumes "n \<le> path"
  shows "keeps n (fst st) (fst (flow_walk_st k topography path cur st))"
proof (induction k arbitrary: cur st)
  case 0
  show ?case by (simp add: keeps_refl)
next
  case (Suc k)
  obtain h processed where st: "st = (h, processed)" by (cases st)
  show ?case
  proof (cases "filter (\<lambda>p. object_key (obj h p) \<notin> processed \<and>
                         \<bar>olat (obj h p) - olat (obj h cur)\<bar> < 2 / 1000 \<and>
                         \<bar>olng (obj h p) - olng (obj h cur)\<bar> < 2 / 1000 \<and>
                         oelevation (obj h p) < oelevation (obj h cur))
                    (elems h topography)")
    case Nil
    with st show ?thesis by (simp add: keeps_refl)
  next
    case (Cons first others)
    define nextPoint where "nextPoint =
                   fold (\<lambda>p steepest.
                           if oelevation (obj h cur) - oelevation (obj h p)
                              > oelevation (obj h cur) - oelevation (obj h steepest)
                           then p else steepest) (first # others) first"
    have step: "flow_walk_st (Suc k) topography path cur st =
        flow_walk_st k topography path nextPoint
          (array_push path nextPoint h, insert (object_key (obj h nextPoint)) processed)"
      using st Cons by (simp add: nextPoint_def Let_def)
    have "keeps n h (array_push path nextPoint h)" using assms by (rule array_push_keeps)
    moreover have "keeps n (array_push path nextPoint h)
        (fst (flow_walk_st k topography path nextPoint
          (array_push path nextPoint h, insert (object_key (obj h nextPoint)) processed)))"
      using Suc.IH [where cur = nextPoint
          and st = "(array_push path nextPoint h, insert (object_key (obj h nextPoint)) processed)"]
      by simp
    ultimately show ?thesis using step st by (auto intro: keeps_trans)
  qed
qed

lemma flow_from_st_keeps:
  assumes "n \<le> flowPaths" and "n \<le> fresh (fst st)"
  shows "keeps n (fst st) (fst (flow_from_st topography flowPaths startPoint st))"
proof -
  obtain h processed where st: "st = (h, processed)" by (cases st)
  show ?thesis
  proof (cases "object_key (obj h startPoint) \<in> processed")
    case True
    with st show ?thesis by (simp add: flow_from_st_def keeps_refl)
  next
    case False
    obtain path h1 where p: "new_array [startPoint] h = (path, h1)" by (cases "new_array [startPoint] h")
    obtain h2 processed' where w: "flow_walk_st 20 topography path startPoint
        (h1, insert (object_key (obj h startPoint)) processed) = (h2, processed')"
      by (cases "flow_walk_st 20 topography path startPoint
        (h1, insert (object_key (obj h startPoint)) processed)")
    from assms(2) st have "n \<le> fresh h" by simp
    from new_array_keeps [OF this p] have k1: "keeps n h h1" and np: "n \<le> path" by simp_all
    have k2: "keeps n h1 h2"
      using flow_walk_st_keeps [OF np, of "(h1, insert (object_key (obj h startPoint)) processed)" 20 topography startPoint] w
      by simp
    have k3: "keeps n h2 (array_push flowPaths path h2)" using assms(1) by (rule array_push_keeps)
    have "fst (flow_from_st topography flowPaths startPoint st) =
        (if length (elems h2 path) > 3 then array_push flowPaths path h2 else h2)"
      using st False p w by (simp add: flow_from_st_def)
    with k1 k2 k3 st show ?thesis by (auto intro: keeps_trans)
  qed
qed

lemma fold_flow_from_st_keeps:
  assumes "n \<le> flowPaths" and "n \<le> fresh (fst st)"
  shows "keeps n (fst st) (fst (fold (flow_from_st topography flowPaths) seeds st))"
  using assms(2)
proof (induction seeds arbitrary: st)
  case Nil
  show ?case by (simp add: keeps_refl)
next
  case (Cons s seeds)
  have k: "keeps n (fst st) (fst (flow_from_st topography flowPaths s st))"
    using assms(1) Cons.prems by (rule flow_from_st_keeps)
  then have "n \<le> fresh (fst (flow_from_st topography flowPaths s st))"
    using Cons.prems by (rule keeps_fresh)
  from Cons.IH [OF this] k show ?case by (auto intro: keeps_trans)
qed

lemma calculateWaterFlow_st_keeps:
  assumes "n \<le> fresh h"
  shows "keeps n h (snd (calculateWaterFlow_st topography h))"
proof -
  obtain flowPaths h1 where f: "new_array [] h = (flowPaths, h1)" by (cases "new_array [] h")
  obtain highPoints h2 where hp: "findHighPoints_st topography 10 h1 = (highPoints, h2)"
    by (cases "findHighPoints_st topography 10 h1")
  from new_array_keeps [OF assms f] have k1: "keeps n h h1" and nf: "n \<le> flowPaths" by simp_all
  have f1: "n \<le> fresh h1" using k1 assms by (rule keeps_fresh)
  have k2: "keeps n h1 h2" using findHighPoints_st_keeps [OF f1, of topography 10] hp by simp
  have f2: "n \<le> fresh h2" using k2 f1 by (rule keeps_fresh)
  have k3: "keeps n h2 (fst (fold (flow_from_st topography flowPaths) (elems h2 highPoints) (h2, {})))"
    using fold_flow_from_st_keeps [OF nf, of "(h2, {})" topography "elems h2 highPoints"] f2 by simp
  have "snd (calculateWaterFlow_st topography h) =
      fst (fold (flow_from_st topography flowPaths) (elems h2 highPoints) (h2, {}))"
    using f hp by (simp add: calculateWaterFlow_st_def)
  with k1 k2 k3 show ?thesis by (metis keeps_trans)
qed

lemma insort_key_map_commute:
  "map f (insort_key (\<lambda>x. k (f x)) x ys) = insort_key k (f x) (map f ys)"
  by (induction ys) simp_all

lemma sort_key_map_commute:
  "map f (sort_key (\<lambda>x. k (f x)) xs) = sort_key k (map f xs)"
  by (induction xs) (simp_all add: insort_key_map_commute)

text \<open>The store version of \<open>findHighPoints\<close> computes what the function on lists
  computes, on the samples that the references stand for.\<close>

lemma findHighPoints_st_result:
  "elems (snd (findHighPoints_st a n h)) (fst (findHighPoints_st a n h)) =
     take n (sort_key (\<lambda>r. - oelevation (obj h r)) (elems h a)) \<and>
   objects (snd (findHighPoints_st a n h)) = objects h"
  by (simp add: findHighPoints_st_def new_array_def array_sort_def elems_def obj_def Let_def)

lemma findHighPoints_st_refines:
  "map (\<lambda>r. sample_of (obj (snd (findHighPoints_st a n h)) r))
       (elems (snd (findHighPoints_st a n h)) (fst (findHighPoints_st a n h))) =
   findHighPoints (map (\<lambda>r. sample_of (obj h r)) (elems h a)) n"
proof -
  have o: "obj (snd (findHighPoints_st a n h)) = obj h"
    using findHighPoints_st_result [of a n h] by (simp add: obj_def [abs_def])
  have "map (\<lambda>r. sample_of (obj h r)) (sort_key (\<lambda>r. - elevation (sample_of (obj h r))) (elems h a)) =
      sort_key (\<lambda>p. - elevation p) (map (\<lambda>r. sample_of (obj h r)) (elems h a))"
    by (rule sort_key_map_commute)
  moreover have "(\<lambda>r. - elevation (sample_of (obj h r))) = (\<lambda>r. - oelevation (obj h r))"
    by (simp add: sample_of_def)
  ultimately show ?thesis
    using findHighPoints_st_result [of a n h]
    by (simp add: o findHighPoints_def take_map [symmetric])
qed

lemma keeps_input:
  assumes "keeps (fresh h) h h'" and "arrays h a = Some refs" and "a < fresh h"
    and "\<forall>r \<in> set refs. r < fresh h"
  shows "arrays h' a = Some refs \<and> (\<forall>r \<in> set refs. objects h' r = objects h r)"
  using assms by (auto simp: keeps_def)

text \<open>
  C10.  Let the input array be allocated in the store, with its elements.  After
  each of \<open>calculateTopography\<close>, \<open>findHighPoints\<close>, \<open>findLowPoints\<close> and
  \<open>calculateWaterFlow\<close>, the input array holds the same references in the same
  order, and each object it refers to has the same properties: every write of the
  four functions goes to an array or object allocated during the call.
\<close>

theorem terrain_functions_keep_input:
  assumes "arrays h a = Some refs" and "a < fresh h" and "\<forall>r \<in> set refs. r < fresh h"
  shows "(arrays (snd (calculateTopography_st a h)) a = Some refs \<and>
          (\<forall>r \<in> set refs. objects (snd (calculateTopography_st a h)) r = objects h r)) \<and>
         (arrays (snd (findHighPoints_st a n h)) a = Some refs \<and>
          (\<forall>r \<in> set refs. objects (snd (findHighPoints_st a n h)) r = objects h r)) \<and>
         (arrays (snd (findLowPoints_st a n h)) a = Some refs \<and>
          (\<forall>r \<in> set refs. objects (snd (findLowPoints_st a n h)) r = objects h r)) \<and>
         (arrays (snd (calculateWaterFlow_st a h)) a = Some refs \<and>
          (\<forall>r \<in> set refs. objects (snd (calculateWaterFlow_st a h)) r = objects h r))"
  using keeps_input [OF calculateTopography_st_keeps [OF order_refl] assms]
    keeps_input [OF findHighPoints_st_keeps [OF order_refl] assms]
    keeps_input [OF findLowPoints_st_keeps [OF order_refl] assms]
    keeps_input [OF calculateWaterFlow_st_keeps [OF order_refl] assms]
  by blast

lemma demo_store_high:
  "fst (findHighPoints_st 4 2 demo_store) = 6 \<and>
   elems (snd (findHighPoints_st 4 2 demo_store)) 6 = [3, 2] \<and>
   elems (snd (findHighPoints_st 4 2 demo_store)) 5 = [3, 2, 1, 0]"
  by (simp add: findHighPoints_st_def demo_store_def new_array_def elems_def array_sort_def
      obj_def Let_def)

lemma demo_store_flow:
  "fst (calculateWaterFlow_st 4 demo_store) = 5 \<and>
   elems (snd (calculateWaterFlow_st 4 demo_store)) 5 = [8] \<and>
   elems (snd (calculateWaterFlow_st 4 demo_store)) 8 = [3, 2, 1, 0]"
  by (simp add: calculateWaterFlow_st_def findHighPoints_st_def demo_store_def new_array_def
      elems_def array_sort_def obj_def Let_def flow_from_st_def object_key_def eval_nat_numeral
      array_push_def)

theorem terrain_functions_keep_input_witness:
  "arrays demo_store 4 = Some [0, 1, 2, 3] \<and> 4 < fresh demo_store \<and>
   elems (snd (findHighPoints_st 4 2 demo_store)) (fst (findHighPoints_st 4 2 demo_store)) = [3, 2] \<and>
   arrays (snd (findHighPoints_st 4 2 demo_store)) 4 = Some [0, 1, 2, 3] \<and>
   arrays (snd (calculateTopography_st 4 demo_store)) 4 = Some [0, 1, 2, 3] \<and>
   elems (snd (calculateWaterFlow_st 4 demo_store)) 8 = [3, 2, 1, 0] \<and>
   arrays (snd (calculateWaterFlow_st 4 demo_store)) 4 = Some [0, 1, 2, 3] \<and>
   objects (snd (calculateWaterFlow_st 4 demo_store)) 3 = objects demo_store 3"
proof -
  have a: "arrays demo_store 4 = Some [0, 1, 2, 3]" and f: "4 < fresh demo_store"
    and r: "\<forall>r \<in> set [0, 1, 2, 3]. r < fresh demo_store"
    by (simp_all add: demo_store_def)
  have "elems (snd (findHighPoints_st 4 2 demo_store)) (fst (findHighPoints_st 4 2 demo_store)) = [3, 2]"
    using demo_store_high by simp
  with terrain_functions_keep_input [OF a f r, of 2] a f demo_store_flow show ?thesis by simp
qed

subsection \<open>A synthesis that waits while the list changes\<close>

text \<open>
  C5.  The callback overwrites the list with one built from the list of two seconds
  before, whatever the terrain, the random numbers and the clock are.  Started on
  an empty list, with a herb spiral placed inside the unit square while the
  callback waits: the herb spiral is in the list before the callback runs and in
  no list after it.  Started on a list with one water tank, which is cleared while
  the callback waits: the list is empty before the callback runs, and the tank is
  back after it.
\<close>

theorem pending_synthesis_overwrites_elements:
  "elements_now (map_click 7 (Some ''HERB_SPIRAL'') (Feature unit_square) (1 / 2, 1 / 2)
      (press_auto_design (Feature unit_square) empty_session)) =
     [\<lparr>etype = ''HERB_SPIRAL'', geom = Position (1 / 2, 1 / 2), name = Name ''Herb Spiral'', eid = 7\<rparr>] \<and>
   map_option (count_type ''HERB_SPIRAL'' \<circ> elements_now)
     (timer_fires rnd now (Feature unit_square) topography demData windDirection
        (map_click 7 (Some ''HERB_SPIRAL'') (Feature unit_square) (1 / 2, 1 / 2)
           (press_auto_design (Feature unit_square) empty_session))) = Some 0 \<and>
   elements_now (clear_elements (press_auto_design (Feature unit_square) tank_session)) = [] \<and>
   map_option (take 1 \<circ> elements_now)
     (timer_fires rnd now (Feature unit_square) topography demData windDirection
        (clear_elements (press_auto_design (Feature unit_square) tank_session))) =
     Some [tank_at (1 / 2, 1 / 2)]"
proof -
  let ?b = "Feature unit_square"
  let ?s1 = "map_click 7 (Some ''HERB_SPIRAL'') ?b (1 / 2, 1 / 2) (press_auto_design ?b empty_session)"
  let ?s2 = "clear_elements (press_auto_design ?b tank_session)"
  have p1: "pending ?s1 = Some ([], (0, 0))"
    by (simp add: map_click_def press_auto_design_def empty_session_def split: prod.splits)
  have e1: "elements_now ?s1 =
      [\<lparr>etype = ''HERB_SPIRAL'', geom = Position (1 / 2, 1 / 2), name = Name ''Herb Spiral'', eid = 7\<rparr>]"
    by (simp add: map_click_def press_auto_design_def empty_session_def onMapClick_def
        ELEMENT_TYPES_def isPointInBoundary_def)
  obtain added1 marker1 where r1:
    "autoDesignLayout rnd now ?b topography demData (0, 0) windDirection [] = Some ([] @ added1, marker1)"
    and k1: "\<forall>e \<in> set added1. \<not> has_type (etype e) [] \<and> etype e \<in> set synthesized_kinds"
    using autoDesignLayout_appends [of rnd now ?b topography demData "(0, 0)" windDirection "[]"]
    by blast
  have "filter (\<lambda>e. etype e = ''HERB_SPIRAL'') added1 = []"
    using k1 by (auto simp: filter_empty_conv synthesized_kinds_def)
  then have c1: "map_option (count_type ''HERB_SPIRAL'' \<circ> elements_now)
      (timer_fires rnd now ?b topography demData windDirection ?s1) = Some 0"
    using r1 by (simp add: timer_fires_def p1 count_type_def)
  have p2: "pending ?s2 = Some ([tank_at (1 / 2, 1 / 2)], (0, 0))"
    and e2: "elements_now ?s2 = []"
    by (simp_all add: clear_elements_def press_auto_design_def tank_session_def)
  obtain added marker2 where r2:
    "autoDesignLayout rnd now ?b topography demData (0, 0) windDirection [tank_at (1 / 2, 1 / 2)] =
       Some ([tank_at (1 / 2, 1 / 2)] @ added, marker2)"
    using autoDesignLayout_appends
      [of rnd now ?b topography demData "(0, 0)" windDirection "[tank_at (1 / 2, 1 / 2)]"]
    by blast
  have c2: "map_option (take 1 \<circ> elements_now)
      (timer_fires rnd now ?b topography demData windDirection ?s2) = Some [tank_at (1 / 2, 1 / 2)]"
    by (simp add: timer_fires_def p2 r2)
  from e1 c1 e2 c2 show ?thesis by simp
qed

end
